theory Spec2Isabelle
  imports Complex_Main
begin

section \<open>Python values, errors and the log\<close>

text \<open>
  The program is the single function \<open>main\<close> of \<open>train.py\<close>. Its collaborators (numpy,
  torch, glob, natsort, logging) are not part of the repository: what \<open>main\<close> needs of them is
  a parameter of the model (the record \<open>torch\<close> below and the inputs of a run), or is written
  out where its behaviour decides a claim (the float product of line 69, the natural sort of
  line 100). Every \<open>raise\<close> is a value: a block returns the state it reached and the exception
  that left it, if any.
\<close>

datatype pyerr =
    OSError
  | FileNotFoundError
  | UnpicklingError
  | KeyError string
  | TypeError
  | ValueError
  | RuntimeError
  | AttributeError
  | ZeroDivisionError
  | UnboundLocalError string

text \<open>A zero-dimensional tensor: \<open>torch.tensor(-1)\<close> is an int64 tensor, a loss is a float tensor.\<close>

datatype 'f tensor = LongTensor int | FloatTensor 'f

text \<open>The values a checkpoint dictionary can hold under its keys.\<close>

datatype ('sd, 'od, 'f) pyobj =
    PyInt int
  | PyTensor "'f tensor"
  | PyModelState 'sd
  | PyOptimState 'od
  | PyNone

text \<open>
  A file of the directory \<open>model_saved\<close>: what \<open>torch.load\<close> makes of it. \<open>Unreadable\<close> is a
  file that \<open>torch.load\<close> raises on, or whose object has no keys to read (line 103 raises
  then, and nothing has changed in between); \<open>Pickled d\<close> is a pickled dictionary, given by
  its items.
\<close>

datatype ('sd, 'od, 'f) saved_file = Unreadable | Pickled "(string \<times> ('sd, 'od, 'f) pyobj) list"

datatype ('sd, 'od, 'f) record_logged =
    LogArgs
  | LogLengths nat nat nat
  | LogModel
  | LogLoad string
  | LogContinue "('sd, 'od, 'f) pyobj" "'f tensor"
  | LogException pyerr
  | LogContinueFrom "('sd, 'od, 'f) pyobj"
  | LogEpoch int int 'f "'f tensor"

record args =
  epoch :: int
  batch_size :: int
  log_interval :: int
  save_interval :: int
  eval_val :: bool
  continue_training :: bool
  num_workers :: int

section \<open>Lines 69 to 71: the split lengths\<close>

text \<open>
  \<open>int(len(all_set) * 0.8)\<close> converts the length to a double, multiplies two doubles and truncates.
  A finite non-negative double is \<open>m * 2 ^ e\<close> with \<open>m < 2 ^ 53\<close>, written as the pair \<open>(m, e)\<close>;
  every operation rounds its exact result to 53 significant bits, to nearest, ties to even
  (IEEE 754 binary64, the \<open>float\<close> of CPython). A length is below \<open>2 ^ 63\<close>, so nothing overflows
  or underflows here.
\<close>

fun bitlen :: "nat \<Rightarrow> nat" where
  "bitlen n = (if n = 0 then 0 else Suc (bitlen (n div 2)))"

declare bitlen.simps [simp del]

definition round_half_even :: "nat \<Rightarrow> nat \<Rightarrow> nat" where
  "round_half_even p s =
     (let q = p div 2 ^ s; r = p mod 2 ^ s
      in if 2 ^ s < 2 * r \<or> (2 * r = 2 ^ s \<and> odd q) then q + 1 else q)"

type_synonym double = "nat \<times> int"

definition round53 :: "nat \<Rightarrow> int \<Rightarrow> double" where
  "round53 m e = (let s = bitlen m - 53 in (round_half_even m s, e + int s))"

definition float_of_int :: "nat \<Rightarrow> double" where
  "float_of_int n = round53 n 0"

definition float_mul :: "double \<Rightarrow> double \<Rightarrow> double" where
  "float_mul x y = round53 (fst x * fst y) (snd x + snd y)"

definition int_of_float :: "double \<Rightarrow> nat" where
  "int_of_float x =
     (if 0 \<le> snd x then fst x * 2 ^ nat (snd x) else fst x div 2 ^ nat (- snd x))"

text \<open>The literals: \<open>0.8\<close> is \<open>0x1.999999999999ap-1\<close> and \<open>0.1\<close> is \<open>0x1.999999999999ap-4\<close>.\<close>

definition lit_0_8 :: double where
  "lit_0_8 = (7205759403792794, - 53)"

definition lit_0_1 :: double where
  "lit_0_1 = (7205759403792794, - 56)"

definition train_len :: "nat \<Rightarrow> nat" where
  "train_len n = int_of_float (float_mul (float_of_int n) lit_0_8)"

definition val_len :: "nat \<Rightarrow> nat" where
  "val_len n = int_of_float (float_mul (float_of_int n) lit_0_1)"

definition test_len :: "nat \<Rightarrow> int" where
  "test_len n = int n - int (train_len n) - int (val_len n)"

definition split_shape :: "nat \<Rightarrow> int list" where
  "split_shape n = [int (train_len n), int (val_len n), test_len n]"

section \<open>Lines 72 to 75: the seeded partition\<close>

text \<open>
  What \<open>main\<close> uses of torch. The generator state is a value of type \<open>'g\<close>: \<open>manual_seed\<close> gives
  the state a seed determines, \<open>randperm\<close> draws a permutation and returns the next state,
  \<open>loader_iter\<close> is one pass of the shuffling \<open>DataLoader\<close> over the training indices.
  \<open>train_step\<close> is lines 120 to 126 on one batch, \<open>val_step\<close> lines 133 to 139. A call
  that loads a state dictionary either returns or raises, and leaves an object behind in
  both cases.
\<close>

datatype 'a call = Returns 'a | Raises 'a

record ('m, 'o, 'sd, 'od, 'f, 'g) torch =
  manual_seed :: "int \<Rightarrow> 'g"
  randperm :: "'g \<Rightarrow> nat \<Rightarrow> nat list \<times> 'g"
  loader_iter :: "'g \<Rightarrow> nat list \<Rightarrow> nat \<Rightarrow> nat list list \<times> 'g"
  train_step :: "'m \<Rightarrow> 'o \<Rightarrow> nat list \<Rightarrow> pyerr + 'm \<times> 'o \<times> 'f"
  val_step :: "'m \<Rightarrow> nat list \<Rightarrow> pyerr + 'f"
  state_dict :: "'m \<Rightarrow> 'sd"
  optim_state_dict :: "'o \<Rightarrow> 'od"
  load_state_dict :: "'m \<Rightarrow> 'sd \<Rightarrow> 'm call"
  optim_load_state_dict :: "'o \<Rightarrow> 'od \<Rightarrow> 'o call"

text \<open>A Python slice \<open>xs[a:b]\<close>: a negative bound counts from the end, both are clipped.\<close>

definition clip_index :: "int \<Rightarrow> nat \<Rightarrow> nat" where
  "clip_index i n = (if i < 0 then nat (max (i + int n) 0) else min (nat i) n)"

definition pyslice :: "int \<Rightarrow> int \<Rightarrow> 'a list \<Rightarrow> 'a list" where
  "pyslice a b xs =
     (let lo = clip_index a (length xs); hi = clip_index b (length xs)
      in take (hi - lo) (drop lo xs))"

text \<open>
  \<open>random_split(dataset, lengths)\<close>: the lengths must sum to the length of the dataset; one
  permutation of the indices is cut into consecutive slices, \<open>indices[offset - length : offset]\<close>
  for the running sums \<open>offset\<close>.
\<close>

fun subsets :: "nat list \<Rightarrow> int \<Rightarrow> int list \<Rightarrow> nat list list" where
  "subsets indices off [] = []"
| "subsets indices off (l # ls) = pyslice off (off + l) indices # subsets indices (off + l) ls"

definition random_split ::
  "('m, 'o, 'sd, 'od, 'f, 'g) torch \<Rightarrow> 'g \<Rightarrow> nat \<Rightarrow> int list \<Rightarrow> pyerr + nat list list \<times> 'g" where
  "random_split t g n lengths =
     (if sum_list lengths \<noteq> int n then Inl ValueError
      else let (indices, g') = randperm t g (nat (sum_list lengths))
           in Inr (subsets indices 0 lengths, g'))"

text \<open>
  Lines 69 to 75 on a dataset of \<open>n\<close> samples, from the generator state \<open>g\<close>.
  \<open>torch.manual_seed(0)\<close> replaces the state before the split; \<open>torch.seed()\<close> replaces it after,
  by the state of a seed \<open>entropy\<close> that the operating system supplies.
\<close>

definition partition ::
  "('m, 'o, 'sd, 'od, 'f, 'g) torch \<Rightarrow> 'g \<Rightarrow> int \<Rightarrow> nat \<Rightarrow>
     pyerr + (nat list \<times> nat list \<times> nat list) \<times> 'g" where
  "partition t g entropy n =
     (let g0 = manual_seed t 0
      in case random_split t g0 n (split_shape n) of
           Inl err \<Rightarrow> Inl err
         | Inr (sets, g1) \<Rightarrow>
             (case sets of
                [train_set, val_set, test_set] \<Rightarrow>
                  Inr ((train_set, val_set, test_set), manual_seed t entropy)
              | _ \<Rightarrow> Inl ValueError))"

section \<open>Lines 97 to 100: the latest checkpoint file\<close>

text \<open>
  The directory \<open>model_saved\<close> is the list of its files, path and content, in the order the
  operating system lists them. \<open>glob.glob('model_saved/checkpoint_*.pt')\<close> keeps the paths
  that start with \<open>model_saved/checkpoint_\<close>, end with \<open>.pt\<close> and have no further \<open>/\<close>.
\<close>

definition checkpoint_glob :: "string \<Rightarrow> bool" where
  "checkpoint_glob p =
     (let pre = ''model_saved/checkpoint_''; suf = ''.pt''
      in length pre + length suf \<le> length p \<and> take (length pre) p = pre \<and>
         drop (length p - length suf) p = suf \<and> CHR ''/'' \<notin> set (drop (length pre) p))"

definition glob :: "(string \<times> 'a) list \<Rightarrow> string list" where
  "glob fs = filter checkpoint_glob (map fst fs)"

text \<open>
  \<open>natsort.natsorted\<close> with its default algorithm: a string is cut into maximal runs of decimal
  digits, read as numbers, and the runs between them, kept as strings; a key that would start
  with a number gets an empty string in front, so that strings meet strings and numbers meet
  numbers. Keys compare as Python tuples do, and the sort is stable.
\<close>

datatype chunk = Str string | Num nat

definition is_digit :: "char \<Rightarrow> bool" where
  "is_digit c = (48 \<le> (of_char c :: nat) \<and> (of_char c :: nat) \<le> 57)"

definition int_of_digits :: "string \<Rightarrow> nat" where
  "int_of_digits ds = foldl (\<lambda>a c. 10 * a + ((of_char c :: nat) - 48)) 0 ds"

function natsort_split :: "string \<Rightarrow> chunk list" where
  "natsort_split [] = []"
| "natsort_split (c # cs) =
     (if is_digit c
      then Num (int_of_digits (c # takeWhile is_digit cs)) # natsort_split (dropWhile is_digit cs)
      else Str (c # takeWhile (\<lambda>x. \<not> is_digit x) cs) #
           natsort_split (dropWhile (\<lambda>x. \<not> is_digit x) cs))"
  by pat_completeness auto
termination
  by (relation "measure length") (auto simp: less_Suc_eq_le length_dropWhile_le)

definition natsort_key :: "string \<Rightarrow> chunk list" where
  "natsort_key s = (case natsort_split s of Num n # r \<Rightarrow> Str [] # Num n # r | r \<Rightarrow> r)"

fun str_less :: "string \<Rightarrow> string \<Rightarrow> bool" where
  "str_less [] [] = False"
| "str_less [] (y # ys) = True"
| "str_less (x # xs) [] = False"
| "str_less (x # xs) (y # ys) =
     (if x = y then str_less xs ys else (of_char x :: nat) < of_char y)"

text \<open>A string never meets a number at the same position of two keys (Python would raise).\<close>

fun chunk_less :: "chunk \<Rightarrow> chunk \<Rightarrow> bool" where
  "chunk_less (Str a) (Str b) = str_less a b"
| "chunk_less (Num a) (Num b) = (a < b)"
| "chunk_less _ _ = False"

fun key_less :: "chunk list \<Rightarrow> chunk list \<Rightarrow> bool" where
  "key_less [] [] = False"
| "key_less [] (y # ys) = True"
| "key_less (x # xs) [] = False"
| "key_less (x # xs) (y # ys) = (if x = y then key_less xs ys else chunk_less x y)"

fun insort_by :: "('a \<Rightarrow> 'a \<Rightarrow> bool) \<Rightarrow> 'a \<Rightarrow> 'a list \<Rightarrow> 'a list" where
  "insort_by lt x [] = [x]"
| "insort_by lt x (y # ys) = (if lt y x then y # insort_by lt x ys else x # y # ys)"

definition sorted_by :: "('a \<Rightarrow> 'a \<Rightarrow> bool) \<Rightarrow> 'a list \<Rightarrow> 'a list" where
  "sorted_by lt xs = foldr (insort_by lt) xs []"

definition natsorted :: "string list \<Rightarrow> string list" where
  "natsorted xs = sorted_by (\<lambda>a b. key_less (natsort_key a) (natsort_key b)) xs"

text \<open>Lines 97 to 100: \<open>None\<close> stands for the \<open>FileNotFoundError\<close> of line 99.\<close>

definition checkpoint_fp :: "(string \<times> 'a) list \<Rightarrow> string option" where
  "checkpoint_fp fs =
     (let checkpoint_fps = glob fs
      in if length checkpoint_fps = 0 then None else Some (last (natsorted checkpoint_fps)))"

text \<open>The file names of lines 154 and 160: \<open>f'model_saved/checkpoint_epoch_{epoch}.pt'\<close>.\<close>

fun str_nat :: "nat \<Rightarrow> string" where
  "str_nat n =
     (if n < 10 then [char_of (48 + n)] else str_nat (n div 10) @ [char_of (48 + n mod 10)])"

declare str_nat.simps [simp del]

definition str_int :: "int \<Rightarrow> string" where
  "str_int i = (if i < 0 then CHR ''-'' # str_nat (nat (- i)) else str_nat (nat i))"

definition checkpoint_path :: "int \<Rightarrow> string" where
  "checkpoint_path e = ''model_saved/checkpoint_epoch_'' @ str_int e @ ''.pt''"

section \<open>The state of a run\<close>

text \<open>
  What \<open>main\<close> reads and writes: the model and the optimizer, the generator, the directory,
  the log, the local \<open>continue_epoch\<close>, and the locals that the loop binds, \<open>None\<close> while unbound.
  \<open>saved\<close> lists the calls of \<open>torch.save\<close>, in order.
\<close>

type_synonym ('sd, 'od, 'f) items = "(string \<times> ('sd, 'od, 'f) pyobj) list"

record ('m, 'o, 'sd, 'od, 'f, 'g) state =
  model :: 'm
  optimizer :: 'o
  rng :: 'g
  files :: "(string \<times> ('sd, 'od, 'f) saved_file) list"
  logged :: "('sd, 'od, 'f) record_logged list"
  continue_epoch :: "('sd, 'od, 'f) pyobj"
  var_epoch :: "int option"
  var_step :: "nat option"
  var_loss :: "'f option"
  var_val_loss :: "'f tensor option"
  saved :: "(string \<times> ('sd, 'od, 'f) items) list"

text \<open>Sequencing: the next block runs from the state the first one returned, unless it raised.\<close>

definition and_then ::
  "'s \<times> pyerr option \<Rightarrow> ('s \<Rightarrow> 's \<times> pyerr option) \<Rightarrow> 's \<times> pyerr option" where
  "and_then r f = (case snd r of None \<Rightarrow> f (fst r) | Some err \<Rightarrow> r)"

definition info ::
  "('sd, 'od, 'f) record_logged \<Rightarrow> ('m, 'o, 'sd, 'od, 'f, 'g) state \<Rightarrow>
     ('m, 'o, 'sd, 'od, 'f, 'g) state" where
  "info r s = s\<lparr>logged := logged s @ [r]\<rparr>"

definition getitem :: "('sd, 'od, 'f) items \<Rightarrow> string \<Rightarrow> pyerr + ('sd, 'od, 'f) pyobj" where
  "getitem d k = (case map_of d k of None \<Rightarrow> Inl (KeyError k) | Some v \<Rightarrow> Inr v)"

fun write_file :: "string \<Rightarrow> 'a \<Rightarrow> (string \<times> 'a) list \<Rightarrow> (string \<times> 'a) list" where
  "write_file p c [] = [(p, c)]"
| "write_file p c ((q, d) # fs) = (if q = p then (p, c) # fs else (q, d) # write_file p c fs)"

section \<open>Lines 94 to 115: resumption\<close>

definition torch_load ::
  "(string \<times> ('sd, 'od, 'f) saved_file) list \<Rightarrow> string \<Rightarrow> pyerr + ('sd, 'od, 'f) items" where
  "torch_load fs p =
     (case map_of fs p of
        None \<Rightarrow> Inl FileNotFoundError
      | Some Unreadable \<Rightarrow> Inl UnpicklingError
      | Some (Pickled d) \<Rightarrow> Inr d)"

text \<open>Line 103: \<open>model.load_state_dict(checkpoint['model_state_dict'])\<close>.\<close>

definition load_model ::
  "('m, 'o, 'sd, 'od, 'f, 'g) torch \<Rightarrow> ('sd, 'od, 'f) items \<Rightarrow>
     ('m, 'o, 'sd, 'od, 'f, 'g) state \<Rightarrow> ('m, 'o, 'sd, 'od, 'f, 'g) state \<times> pyerr option" where
  "load_model t checkpoint s =
     (case getitem checkpoint ''model_state_dict'' of
        Inl err \<Rightarrow> (s, Some err)
      | Inr (PyModelState sd) \<Rightarrow>
          (case load_state_dict t (model s) sd of
             Returns m \<Rightarrow> (s\<lparr>model := m\<rparr>, None)
           | Raises m \<Rightarrow> (s\<lparr>model := m\<rparr>, Some RuntimeError))
      | Inr _ \<Rightarrow> (s, Some TypeError))"

text \<open>Line 104: \<open>optimizer.load_state_dict(checkpoint['optimizer_state_dict'])\<close>.\<close>

definition load_optimizer ::
  "('m, 'o, 'sd, 'od, 'f, 'g) torch \<Rightarrow> ('sd, 'od, 'f) items \<Rightarrow>
     ('m, 'o, 'sd, 'od, 'f, 'g) state \<Rightarrow> ('m, 'o, 'sd, 'od, 'f, 'g) state \<times> pyerr option" where
  "load_optimizer t checkpoint s =
     (case getitem checkpoint ''optimizer_state_dict'' of
        Inl err \<Rightarrow> (s, Some err)
      | Inr (PyOptimState od) \<Rightarrow>
          (case optim_load_state_dict t (optimizer s) od of
             Returns opt \<Rightarrow> (s\<lparr>optimizer := opt\<rparr>, None)
           | Raises opt \<Rightarrow> (s\<lparr>optimizer := opt\<rparr>, Some ValueError))
      | Inr _ \<Rightarrow> (s, Some TypeError))"

text \<open>Lines 105 to 112: the two fields are read, then the two records are logged.\<close>

definition load_position ::
  "('sd, 'od, 'f) items \<Rightarrow> string \<Rightarrow> ('m, 'o, 'sd, 'od, 'f, 'g) state \<Rightarrow>
     ('m, 'o, 'sd, 'od, 'f, 'g) state \<times> pyerr option" where
  "load_position checkpoint fp s =
     (case getitem checkpoint ''epoch'' of
        Inl err \<Rightarrow> (s, Some err)
      | Inr e \<Rightarrow>
          (let s1 = s\<lparr>continue_epoch := e\<rparr>
           in case getitem checkpoint ''loss'' of
                Inl err \<Rightarrow> (s1, Some err)
              | Inr continue_loss \<Rightarrow>
                  (let s2 = info (LogLoad fp) s1
                   in case continue_loss of
                        PyTensor l \<Rightarrow> (info (LogContinue e l) s2, None)
                      | _ \<Rightarrow> (s2, Some AttributeError))))"

text \<open>Lines 97 to 112, the body of the \<open>try\<close>.\<close>

definition load_checkpoint ::
  "('m, 'o, 'sd, 'od, 'f, 'g) torch \<Rightarrow> ('m, 'o, 'sd, 'od, 'f, 'g) state \<Rightarrow>
     ('m, 'o, 'sd, 'od, 'f, 'g) state \<times> pyerr option" where
  "load_checkpoint t s =
     (case checkpoint_fp (files s) of
        None \<Rightarrow> (s, Some FileNotFoundError)
      | Some fp \<Rightarrow>
          (case torch_load (files s) fp of
             Inl err \<Rightarrow> (s, Some err)
           | Inr checkpoint \<Rightarrow>
               and_then (load_model t checkpoint s) (\<lambda>s1.
               and_then (load_optimizer t checkpoint s1) (\<lambda>s2.
               load_position checkpoint fp s2))))"

text \<open>
  Lines 94 to 115. The state starts with \<open>continue_epoch = 0\<close> (line 94). The bare \<open>except\<close>
  catches whatever the body raised and logs it; line 115 logs the epoch in both cases.
\<close>

definition resume ::
  "('m, 'o, 'sd, 'od, 'f, 'g) torch \<Rightarrow> args \<Rightarrow> ('m, 'o, 'sd, 'od, 'f, 'g) state \<Rightarrow>
     ('m, 'o, 'sd, 'od, 'f, 'g) state" where
  "resume t a s =
     (if continue_training a
      then let r = load_checkpoint t s;
               s1 = (case snd r of None \<Rightarrow> fst r | Some err \<Rightarrow> info (LogException err) (fst r))
           in info (LogContinueFrom (continue_epoch s1)) s1
      else s)"

section \<open>Lines 117 to 160: the training loop and the final save\<close>

text \<open>Lines 119 to 126: the batches of one epoch, counted by \<open>enumerate\<close>.\<close>

fun train_batches ::
  "('m, 'o, 'sd, 'od, 'f, 'g) torch \<Rightarrow> nat \<Rightarrow> nat list list \<Rightarrow>
     ('m, 'o, 'sd, 'od, 'f, 'g) state \<Rightarrow> ('m, 'o, 'sd, 'od, 'f, 'g) state \<times> pyerr option" where
  "train_batches t i [] s = (s, None)"
| "train_batches t i (x # xs) s =
     (case train_step t (model s) (optimizer s) x of
        Inl err \<Rightarrow> (s\<lparr>var_step := Some i\<rparr>, Some err)
      | Inr (m, opt, l) \<Rightarrow>
          train_batches t (Suc i) xs
            (s\<lparr>var_step := Some i, model := m, optimizer := opt, var_loss := Some l\<rparr>))"

text \<open>Lines 129 to 139: the validation loss, over the batches of the validation loader.\<close>

fun val_batches ::
  "('m, 'o, 'sd, 'od, 'f, 'g) torch \<Rightarrow> nat list list \<Rightarrow>
     ('m, 'o, 'sd, 'od, 'f, 'g) state \<Rightarrow> ('m, 'o, 'sd, 'od, 'f, 'g) state \<times> pyerr option" where
  "val_batches t [] s = (s, None)"
| "val_batches t (x # xs) s =
     (case val_step t (model s) x of
        Inl err \<Rightarrow> (s, Some err)
      | Inr l \<Rightarrow> val_batches t xs (s\<lparr>var_val_loss := Some (FloatTensor l)\<rparr>))"

definition validate ::
  "('m, 'o, 'sd, 'od, 'f, 'g) torch \<Rightarrow> args \<Rightarrow> nat list \<Rightarrow>
     ('m, 'o, 'sd, 'od, 'f, 'g) state \<Rightarrow> ('m, 'o, 'sd, 'od, 'f, 'g) state \<times> pyerr option" where
  "validate t a val_set s =
     (if \<not> eval_val a then (s\<lparr>var_val_loss := Some (LongTensor (- 1))\<rparr>, None)
      else val_batches t (if val_set = [] then [] else [val_set]) s)"

text \<open>\<open>len(train_loader)\<close>: the number of batches, the last one partial.\<close>

definition loader_len :: "nat \<Rightarrow> int \<Rightarrow> int" where
  "loader_len n bs = (int n + bs - 1) div bs"

text \<open>Lines 141 to 146: the record of the epoch; an unbound local raises.\<close>

definition log_epoch ::
  "args \<Rightarrow> nat list \<Rightarrow> int \<Rightarrow> ('m, 'o, 'sd, 'od, 'f, 'g) state \<Rightarrow>
     ('m, 'o, 'sd, 'od, 'f, 'g) state \<times> pyerr option" where
  "log_epoch a train_set e s =
     (case var_step s of
        None \<Rightarrow> (s, Some (UnboundLocalError ''step''))
      | Some step \<Rightarrow>
          (case var_loss s of
             None \<Rightarrow> (s, Some (UnboundLocalError ''loss''))
           | Some loss \<Rightarrow>
               (case var_val_loss s of
                  None \<Rightarrow> (s, Some (UnboundLocalError ''val_loss''))
                | Some val_loss \<Rightarrow>
                    (info (LogEpoch e (e * loader_len (length train_set) (batch_size a) + int step)
                             loss val_loss) s, None))))"

text \<open>Lines 149 to 154 and 155 to 160: \<open>torch.save\<close> of the four fields, named by \<open>epoch\<close>.\<close>

definition checkpoint_items ::
  "('m, 'o, 'sd, 'od, 'f, 'g) torch \<Rightarrow> int \<Rightarrow> 'f \<Rightarrow> ('m, 'o, 'sd, 'od, 'f, 'g) state \<Rightarrow>
     ('sd, 'od, 'f) items" where
  "checkpoint_items t e loss s =
     [(''epoch'', PyInt e), (''loss'', PyTensor (FloatTensor loss)),
      (''model_state_dict'', PyModelState (state_dict t (model s))),
      (''optimizer_state_dict'', PyOptimState (optim_state_dict t (optimizer s)))]"

definition save_checkpoint ::
  "('m, 'o, 'sd, 'od, 'f, 'g) torch \<Rightarrow> ('m, 'o, 'sd, 'od, 'f, 'g) state \<Rightarrow>
     ('m, 'o, 'sd, 'od, 'f, 'g) state \<times> pyerr option" where
  "save_checkpoint t s =
     (case var_epoch s of
        None \<Rightarrow> (s, Some (UnboundLocalError ''epoch''))
      | Some e \<Rightarrow>
          (case var_loss s of
             None \<Rightarrow> (s, Some (UnboundLocalError ''loss''))
           | Some loss \<Rightarrow>
               (let d = checkpoint_items t e loss s
                in (s\<lparr>files := write_file (checkpoint_path e) (Pickled d) (files s),
                       saved := saved s @ [(checkpoint_path e, d)]\<rparr>, None))))"

text \<open>Lines 128 to 146: every \<open>log_interval\<close> epochs, validate (or not) and log.\<close>

definition log_block ::
  "('m, 'o, 'sd, 'od, 'f, 'g) torch \<Rightarrow> args \<Rightarrow> nat list \<Rightarrow> nat list \<Rightarrow> int \<Rightarrow>
     ('m, 'o, 'sd, 'od, 'f, 'g) state \<Rightarrow> ('m, 'o, 'sd, 'od, 'f, 'g) state \<times> pyerr option" where
  "log_block t a train_set val_set e s =
     (if log_interval a = 0 then (s, Some ZeroDivisionError)
      else if e mod log_interval a = 0
        then and_then (validate t a val_set s) (log_epoch a train_set e)
        else (s, None))"

text \<open>Lines 148 to 154: every \<open>save_interval\<close> epochs, save.\<close>

definition save_block ::
  "('m, 'o, 'sd, 'od, 'f, 'g) torch \<Rightarrow> args \<Rightarrow> int \<Rightarrow>
     ('m, 'o, 'sd, 'od, 'f, 'g) state \<Rightarrow> ('m, 'o, 'sd, 'od, 'f, 'g) state \<times> pyerr option" where
  "save_block t a e s =
     (if save_interval a = 0 then (s, Some ZeroDivisionError)
      else if e mod save_interval a = 0 then save_checkpoint t s
      else (s, None))"

text \<open>Lines 118 to 154: one pass of the loop body, with \<open>epoch\<close> bound to \<open>e\<close>.\<close>

definition train_epoch ::
  "('m, 'o, 'sd, 'od, 'f, 'g) torch \<Rightarrow> args \<Rightarrow> nat list \<Rightarrow> nat list \<Rightarrow> int \<Rightarrow>
     ('m, 'o, 'sd, 'od, 'f, 'g) state \<Rightarrow> ('m, 'o, 'sd, 'od, 'f, 'g) state \<times> pyerr option" where
  "train_epoch t a train_set val_set e s =
     (let s0 = s\<lparr>var_epoch := Some e\<rparr>;
          it = loader_iter t (rng s0) train_set (nat (batch_size a))
      in and_then (train_batches t 0 (fst it) (s0\<lparr>rng := snd it\<rparr>)) (\<lambda>s1.
         and_then (log_block t a train_set val_set e s1) (save_block t a e)))"

fun for_each :: "('e \<Rightarrow> 's \<Rightarrow> 's \<times> pyerr option) \<Rightarrow> 'e list \<Rightarrow> 's \<Rightarrow> 's \<times> pyerr option" where
  "for_each body [] s = (s, None)"
| "for_each body (e # es) s = and_then (body e s) (for_each body es)"

text \<open>
  \<open>range(continue_epoch, args.epoch)\<close> wants an integer: an \<open>int\<close>, or an integer tensor, which
  converts by \<open>__index__\<close>.
\<close>

fun as_index :: "('sd, 'od, 'f) pyobj \<Rightarrow> int option" where
  "as_index (PyInt c) = Some c"
| "as_index (PyTensor (LongTensor c)) = Some c"
| "as_index _ = None"

text \<open>Lines 118 to 160: the loop over \<open>range(continue_epoch, args.epoch)\<close>, then the last save.\<close>

definition training ::
  "('m, 'o, 'sd, 'od, 'f, 'g) torch \<Rightarrow> args \<Rightarrow> nat list \<Rightarrow> nat list \<Rightarrow>
     ('m, 'o, 'sd, 'od, 'f, 'g) state \<Rightarrow> ('m, 'o, 'sd, 'od, 'f, 'g) state \<times> pyerr option" where
  "training t a train_set val_set s =
     (case as_index (continue_epoch s) of
        Some c \<Rightarrow>
          and_then (for_each (train_epoch t a train_set val_set) [c..epoch a - 1] s)
            (save_checkpoint t)
      | None \<Rightarrow> (s, Some TypeError))"

section \<open>The function \<open>main\<close>\<close>

text \<open>
  The inputs of a run: what \<open>np.load\<close> gives (an error, or a dataset, of which the model keeps
  the length), the seed \<open>torch.seed()\<close> will draw, the generator state at the start, the
  directory, and the model and optimizer that lines 89 to 91 build.
\<close>

record ('m, 'o, 'sd, 'od, 'f, 'g) world =
  np_load :: "pyerr + nat"
  entropy :: int
  rng0 :: 'g
  files0 :: "(string \<times> ('sd, 'od, 'f) saved_file) list"
  model0 :: 'm
  optimizer0 :: 'o

definition init ::
  "('m, 'o, 'sd, 'od, 'f, 'g) world \<Rightarrow> ('m, 'o, 'sd, 'od, 'f, 'g) state" where
  "init w =
     \<lparr>model = model0 w, optimizer = optimizer0 w, rng = rng0 w, files = files0 w,
      logged = [LogArgs], continue_epoch = PyInt 0, var_epoch = None, var_step = None,
      var_loss = None, var_val_loss = None, saved = []\<rparr>"

text \<open>
  Lines 77 to 84: a \<open>DataLoader\<close> refuses a batch size that is not positive and a negative
  number of workers; the validation loader takes the whole validation set as its batch size.
\<close>

definition loaders_ok :: "args \<Rightarrow> nat list \<Rightarrow> bool" where
  "loaders_ok a val_set = (0 < batch_size a \<and> 0 \<le> num_workers a \<and> 0 < length val_set)"

definition main ::
  "('m, 'o, 'sd, 'od, 'f, 'g) torch \<Rightarrow> args \<Rightarrow> ('m, 'o, 'sd, 'od, 'f, 'g) world \<Rightarrow>
     ('m, 'o, 'sd, 'od, 'f, 'g) state \<times> pyerr option" where
  "main t a w =
     (let s = init w
      in case np_load w of
           Inl err \<Rightarrow> (s, Some err)
         | Inr n \<Rightarrow>
             (case partition t (rng s) (entropy w) n of
                Inl err \<Rightarrow> (s\<lparr>rng := manual_seed t 0\<rparr>, Some err)
              | Inr ((train_set, val_set, test_set), g) \<Rightarrow>
                  (let s1 = s\<lparr>rng := g\<rparr>
                   in if \<not> loaders_ok a val_set then (s1, Some ValueError)
                      else let s2 = info LogModel (info (LogLengths (length train_set)
                                      (length val_set) (length test_set)) s1)
                           in training t a train_set val_set (resume t a s2))))"

section \<open>What a log says, and a small instance\<close>

text \<open>The validation losses of the epoch records of a log, in order.\<close>

fun val_losses :: "('sd, 'od, 'f) record_logged list \<Rightarrow> 'f tensor list" where
  "val_losses [] = []"
| "val_losses (LogEpoch e n l v # rs) = v # val_losses rs"
| "val_losses (r # rs) = val_losses rs"

text \<open>
  An instance to evaluate the definitions on: models, optimizers, state dictionaries, losses
  and generator states are numbers. A training step counts up the model and the optimizer and
  reports the old model as the loss; the loader yields the whole set as one batch; a state
  dictionary loads as it is, but the optimizer refuses the dictionary \<open>0\<close>.
\<close>

definition toy_torch :: "(nat, nat, nat, nat, nat, nat) torch" where
  "toy_torch =
     \<lparr>manual_seed = (\<lambda>i. nat \<bar>i\<bar>),
      randperm = (\<lambda>g n. (rev [0..<n], Suc g)),
      loader_iter = (\<lambda>g xs bs. ([xs], Suc g)),
      train_step = (\<lambda>m opt x. Inr (Suc m, Suc opt, m)),
      val_step = (\<lambda>m x. Inr m),
      state_dict = (\<lambda>m. m),
      optim_state_dict = (\<lambda>opt. opt),
      load_state_dict = (\<lambda>m sd. Returns sd),
      optim_load_state_dict = (\<lambda>opt od. if od = 0 then Raises opt else Returns od)\<rparr>"

definition toy_args :: args where
  "toy_args =
     \<lparr>epoch = 3, batch_size = 4, log_interval = 1, save_interval = 2, eval_val = False,
      continue_training = True, num_workers = 0\<rparr>"

text \<open>A state before line 94 whose directory holds the one file \<open>f\<close> under the name of epoch \<open>1\<close>.\<close>

definition toy_state ::
  "(nat, nat, nat) saved_file \<Rightarrow> (nat, nat, nat, nat, nat, nat) state" where
  "toy_state f =
     \<lparr>model = 0, optimizer = 0, rng = 0, files = [(''model_saved/checkpoint_epoch_1.pt'', f)],
      logged = [LogArgs, LogLengths 2 1 0, LogModel], continue_epoch = PyInt 0,
      var_epoch = None, var_step = None, var_loss = None, var_val_loss = None, saved = []\<rparr>"

definition toy_checkpoint :: "int \<Rightarrow> (nat, nat, nat) saved_file" where
  "toy_checkpoint e =
     Pickled [(''epoch'', PyInt e), (''loss'', PyTensor (FloatTensor 5)),
              (''model_state_dict'', PyModelState 11), (''optimizer_state_dict'', PyOptimState 12)]"

text \<open>Two damaged checkpoints: one without the key \<open>loss\<close>, one whose optimizer state does not load.\<close>

definition toy_no_loss :: "(nat, nat, nat) saved_file" where
  "toy_no_loss =
     Pickled [(''epoch'', PyInt 1), (''model_state_dict'', PyModelState 11),
              (''optimizer_state_dict'', PyOptimState 12)]"

definition toy_bad_optimizer :: "(nat, nat, nat) saved_file" where
  "toy_bad_optimizer =
     Pickled [(''epoch'', PyInt 1), (''loss'', PyTensor (FloatTensor 5)),
              (''model_state_dict'', PyModelState 11), (''optimizer_state_dict'', PyOptimState 0)]"

text \<open>The states in which the loop over the epochs \<open>1\<close> and \<open>2\<close> ends, and what it saved.\<close>

definition toy_items :: "(string \<times> (nat, nat, nat) pyobj) list" where
  "toy_items =
     [(''epoch'', PyInt 2), (''loss'', PyTensor (FloatTensor 12)),
      (''model_state_dict'', PyModelState 13), (''optimizer_state_dict'', PyOptimState 14)]"

definition toy_end :: "(nat, nat, nat, nat, nat, nat) state" where
  "toy_end =
     \<lparr>model = 13, optimizer = 14, rng = 2,
      files = [(''model_saved/checkpoint_epoch_1.pt'', toy_checkpoint 1),
               (''model_saved/checkpoint_epoch_2.pt'', Pickled toy_items)],
      logged = [LogArgs, LogLengths 2 1 0, LogModel,
                LogLoad ''model_saved/checkpoint_epoch_1.pt'',
                LogContinue (PyInt 1) (FloatTensor 5), LogContinueFrom (PyInt 1),
                LogEpoch 1 1 11 (LongTensor (- 1)), LogEpoch 2 2 12 (LongTensor (- 1))],
      continue_epoch = PyInt 1, var_epoch = Some 2, var_step = Some 0, var_loss = Some 12,
      var_val_loss = Some (LongTensor (- 1)), saved = [(''model_saved/checkpoint_epoch_2.pt'', toy_items)]\<rparr>"

text \<open>The inputs of a run on ten samples or on none, over a given directory.\<close>

definition toy_world ::
  "pyerr + nat \<Rightarrow> (string \<times> (nat, nat, nat) saved_file) list \<Rightarrow>
     (nat, nat, nat, nat, nat, nat) world" where
  "toy_world r fs =
     \<lparr>np_load = r, entropy = 9, rng0 = 7, files0 = fs, model0 = 0, optimizer0 = 0\<rparr>"

text \<open>The state of that run on ten samples when it reaches line 94.\<close>

definition toy_before ::
  "(string \<times> (nat, nat, nat) saved_file) list \<Rightarrow> (nat, nat, nat, nat, nat, nat) state" where
  "toy_before fs =
     \<lparr>model = 0, optimizer = 0, rng = 9, files = fs,
      logged = [LogArgs, LogLengths 8 1 1, LogModel], continue_epoch = PyInt 0,
      var_epoch = None, var_step = None, var_loss = None, var_val_loss = None, saved = []\<rparr>"

definition toy_files5 :: "(string \<times> (nat, nat, nat) saved_file) list" where
  "toy_files5 = [(''model_saved/checkpoint_epoch_5.pt'', toy_checkpoint 5)]"

definition toy_end_unsaved :: "(nat, nat, nat, nat, nat, nat) state" where
  "toy_end_unsaved =
     toy_end\<lparr>files := [(''model_saved/checkpoint_epoch_1.pt'', toy_checkpoint 1)], saved := []\<rparr>"

section \<open>The split lengths are the floors\<close>

text \<open>
  The number of binary digits bounds its argument, and rounding moves a quotient by at most one.
\<close>

lemma bitlen_gt: "n < 2 ^ bitlen n"
proof (induction n rule: bitlen.induct)
  case (1 n)
  show ?case
  proof (cases "n = 0")
    case True
    then show ?thesis by (simp add: bitlen.simps)
  next
    case False
    with 1 have "n div 2 < 2 ^ bitlen (n div 2)" by simp
    then have "n < 2 * 2 ^ bitlen (n div 2)" by linarith
    with False show ?thesis by (subst bitlen.simps) simp
  qed
qed

lemma bitlen_le: "n < 2 ^ k \<Longrightarrow> bitlen n \<le> k"
proof (induction n arbitrary: k rule: bitlen.induct)
  case (1 n)
  show ?case
  proof (cases "n = 0")
    case True
    then show ?thesis by (simp add: bitlen.simps)
  next
    case False
    with 1(2) obtain j where k: "k = Suc j" by (cases k) auto
    with 1(2) have "n div 2 < 2 ^ j" by auto
    with 1(1) False have "bitlen (n div 2) \<le> j" by simp
    with False k show ?thesis by (subst bitlen.simps) simp
  qed
qed

lemma round_half_even_cases:
  "round_half_even p s = p div 2 ^ s \<or> round_half_even p s = p div 2 ^ s + 1"
  by (simp add: round_half_even_def Let_def)

lemma round_half_even_down:
  "2 * (p mod 2 ^ s) < 2 ^ s \<Longrightarrow> round_half_even p s = p div 2 ^ s"
  by (simp add: round_half_even_def Let_def)

lemma round_trunc:
  fixes p k s t :: nat
  assumes st: "s \<le> t"
    and lower: "k * 2 ^ t \<le> p"
    and upper: "p + 2 ^ s < (k + 1) * 2 ^ t \<or>
                (p < (k + 1) * 2 ^ t \<and> 2 * (p mod 2 ^ s) < 2 ^ s)"
  shows "round_half_even p s div 2 ^ (t - s) = k"
proof -
  define u :: nat where "u = 2 ^ s"
  define v :: nat where "v = 2 ^ (t - s)"
  have u: "0 < u" and v: "0 < v" by (simp_all add: u_def v_def)
  have t: "(2::nat) ^ t = v * u"
    using st by (simp add: u_def v_def flip: power_add)
  have lo: "k * v \<le> p div u"
  proof -
    have "k * v * u \<le> p" using lower by (simp add: t algebra_simps)
    then have "k * v * u div u \<le> p div u" by (rule div_le_mono)
    then show ?thesis using u by simp
  qed
  have hi: "round_half_even p s < (k + 1) * v"
  proof -
    from upper show ?thesis
    proof
      assume a: "p + 2 ^ s < (k + 1) * 2 ^ t"
      then have "p + u < (k + 1) * v * u" by (simp add: t u_def algebra_simps)
      then have "(p + u) div u < (k + 1) * v" by (rule less_mult_imp_div_less)
      moreover have "(p + u) div u = p div u + 1" using u by (simp add: div_add_self2)
      ultimately have "p div u + 1 < (k + 1) * v" by (simp only:)
      then show ?thesis
        using round_half_even_cases [of p s] by (auto simp: u_def)
    next
      assume a: "p < (k + 1) * 2 ^ t \<and> 2 * (p mod 2 ^ s) < 2 ^ s"
      then have "p < (k + 1) * v * u" by (simp add: t algebra_simps)
      then have "p div u < (k + 1) * v" by (rule less_mult_imp_div_less)
      then show ?thesis
        using a round_half_even_down [of p s] by (simp add: u_def)
    qed
  qed
  have "k * v \<le> round_half_even p s"
    using lo round_half_even_cases [of p s] by (auto simp: u_def)
  with hi have "round_half_even p s div v = k"
    using v by (metis add.commute div_nat_eqI mult.commute plus_1_eq_Suc mult_Suc)
  then show ?thesis by (simp add: v_def)
qed


lemma float_of_int_small: "n < 2 ^ 53 \<Longrightarrow> float_of_int n = (n, 0)"
  using bitlen_le [of n 53]
  by (simp add: float_of_int_def round53_def round_half_even_def Let_def)

lemma mod_pow2_add:
  fixes k w s t :: nat
  assumes "s \<le> t" "w < 2 ^ s"
  shows "(k * 2 ^ t + w) mod 2 ^ s = w"
proof -
  have "(2::nat) ^ t = 2 ^ (t - s) * 2 ^ s"
    using assms(1) by (simp flip: power_add)
  then have "(k * 2 ^ t + w) mod 2 ^ s = (w + k * 2 ^ (t - s) * 2 ^ s) mod 2 ^ s"
    by (simp add: algebra_simps)
  also have "\<dots> = w mod 2 ^ s" by (rule mod_mult_self1)
  finally show ?thesis using assms(2) by simp
qed

lemma mul_lit_trunc:
  fixes n m t c d x :: nat
  assumes n: "n < 2 ^ 50" and t: "53 \<le> t" "t \<le> 56" and m: "m < 2 ^ 53"
    and d: "0 < d" "d \<le> 10"
    and lit: "d * m = c * 2 ^ t + x" and x: "(x + d) * 2 ^ 50 < 2 ^ t"
    and tie: "c * n mod d = 0 \<Longrightarrow>
         \<exists>w. n * m = (c * n div d) * 2 ^ t + w \<and> 2 * w * 2 ^ 53 \<le> (c * n div d) * 2 ^ t \<and>
             w < 2 ^ 53"
  shows "int_of_float (float_mul (float_of_int n) (m, - int t)) = c * n div d"
proof -
  define p where "p = n * m"
  define s where "s = bitlen p - 53"
  define k where "k = c * n div d"
  define r where "r = c * n mod d"
  define u :: nat where "u = 2 ^ s"
  have cn: "c * n = d * k + r" by (simp add: k_def r_def)
  have rd: "r < d" using d by (simp add: r_def)
  have "d * p = n * (d * m)" by (simp add: p_def algebra_simps)
  also have "\<dots> = n * (c * 2 ^ t) + n * x" by (simp add: lit algebra_simps)
  finally have dp: "d * p = c * n * 2 ^ t + x * n" by (simp add: algebra_simps)
  have "p < 2 ^ 50 * 2 ^ 53"
    unfolding p_def using n m by (intro mult_strict_mono) simp_all
  then have "p < 2 ^ 103" by (simp flip: power_add)
  then have "bitlen p \<le> 103" by (rule bitlen_le)
  then have s50: "s \<le> 50" by (simp add: s_def)
  then have u50: "u \<le> 2 ^ 50" unfolding u_def by (intro power_increasing) simp_all
  have "bitlen p \<le> 53 + s" by (simp add: s_def)
  then have "(2::nat) ^ bitlen p \<le> 2 ^ (53 + s)" by (intro power_increasing) simp_all
  with bitlen_gt [of p] have ps: "p < 2 ^ 53 * u" by (simp add: u_def power_add)
  have st: "s \<le> t" using s50 t by simp
  have t53: "(2::nat) ^ 53 \<le> 2 ^ t" using t by (intro power_increasing) simp_all
  have val: "int_of_float (float_mul (float_of_int n) (m, - int t)) =
      round_half_even p s div 2 ^ (t - s)"
  proof -
    have "n < 2 ^ 53" using n by (rule less_trans) simp
    moreover have "\<not> 0 \<le> - int t + int s" using s50 t by simp
    moreover have "nat (int t - int s) = t - s" by simp
    ultimately show ?thesis
      by (simp add: float_of_int_small float_mul_def round53_def int_of_float_def Let_def
          p_def s_def)
  qed
  have lower: "k * 2 ^ t \<le> p"
  proof -
    have "d * (k * 2 ^ t) \<le> d * p" using cn by (simp add: dp algebra_simps)
    then show ?thesis using d by simp
  qed
  have upper: "p + 2 ^ s < (k + 1) * 2 ^ t \<or>
      (p < (k + 1) * 2 ^ t \<and> 2 * (p mod 2 ^ s) < 2 ^ s)"
  proof (cases "r = 0")
    case False
    have "x * n + d * u < 2 ^ t"
    proof -
      have "x * n \<le> x * 2 ^ 50" using n by (intro mult_le_mono2) simp
      moreover have "d * u \<le> d * 2 ^ 50" using u50 by (rule mult_le_mono2)
      ultimately have "x * n + d * u \<le> x * 2 ^ 50 + d * 2 ^ 50" by (rule add_mono)
      then have "x * n + d * u \<le> (x + d) * 2 ^ 50" by (simp only: add_mult_distrib)
      then show ?thesis using x by (rule le_less_trans)
    qed
    moreover have "d * (p + u) = d * k * 2 ^ t + r * 2 ^ t + x * n + d * u"
      using cn by (simp add: dp algebra_simps)
    moreover have "r * 2 ^ t + 2 ^ t \<le> d * 2 ^ t"
    proof -
      have "(r + 1) * 2 ^ t \<le> d * 2 ^ t" using rd False by (intro mult_le_mono1) simp
      then show ?thesis by (simp add: algebra_simps)
    qed
    ultimately have "d * (p + u) < d * ((k + 1) * 2 ^ t)"
      by (simp add: algebra_simps)
    then have "p + u < (k + 1) * 2 ^ t" using d by simp
    then show ?thesis by (simp add: u_def)
  next
    case True
    with tie obtain w where w: "p = k * 2 ^ t + w" "2 * w * 2 ^ 53 \<le> k * 2 ^ t" "w < 2 ^ 53"
      by (auto simp: r_def k_def p_def)
    have "2 * w * 2 ^ 53 < 2 ^ 53 * u" using w(1,2) ps by simp
    then have wu: "2 * w < u" by simp
    then have "w < 2 ^ s" by (simp add: u_def)
    with st have "p mod 2 ^ s = w" unfolding w(1) by (rule mod_pow2_add)
    moreover have "p < (k + 1) * 2 ^ t" using w(1,3) t53 by simp
    ultimately show ?thesis using wu by (simp add: u_def)
  qed
  from round_trunc [OF st lower upper] val show ?thesis by (simp add: k_def)
qed

lemma train_len_exact:
  assumes "n < 2 ^ 50"
  shows "train_len n = 4 * n div 5"
proof -
  have "int_of_float (float_mul (float_of_int n) (7205759403792794, - int 53)) = 4 * n div 5"
  proof (rule mul_lit_trunc [where x = 2])
    assume "4 * n mod 5 = 0"
    then have "n = 5 * (n div 5)" by presburger
    then obtain j where j: "n = 5 * j" ..
    have "n * 7205759403792794 = 4 * n div 5 * 2 ^ 53 + 2 * j \<and>
          2 * (2 * j) * 2 ^ 53 \<le> 4 * n div 5 * 2 ^ 53 \<and> 2 * j < 2 ^ 53"
      using assms by (simp add: j)
    then show "\<exists>w. n * 7205759403792794 = 4 * n div 5 * 2 ^ 53 + w \<and>
          2 * w * 2 ^ 53 \<le> 4 * n div 5 * 2 ^ 53 \<and> w < 2 ^ 53" ..
  qed (use assms in simp_all)
  then show ?thesis by (simp add: train_len_def lit_0_8_def)
qed

lemma val_len_exact:
  assumes "n < 2 ^ 50"
  shows "val_len n = n div 10"
proof -
  have "int_of_float (float_mul (float_of_int n) (7205759403792794, - int 56)) = 1 * n div 10"
  proof (rule mul_lit_trunc [where x = 4])
    assume "1 * n mod 10 = 0"
    then have "n = 10 * (n div 10)" by presburger
    then obtain j where j: "n = 10 * j" ..
    have "n * 7205759403792794 = 1 * n div 10 * 2 ^ 56 + 4 * j \<and>
          2 * (4 * j) * 2 ^ 53 \<le> 1 * n div 10 * 2 ^ 56 \<and> 4 * j < 2 ^ 53"
      using assms by (simp add: j)
    then show "\<exists>w. n * 7205759403792794 = 1 * n div 10 * 2 ^ 56 + w \<and>
          2 * w * 2 ^ 53 \<le> 1 * n div 10 * 2 ^ 56 \<and> w < 2 ^ 53" ..
  qed (use assms in simp_all)
  then show ?thesis by (simp add: val_len_def lit_0_1_def)
qed


section \<open>The partition of lines 69 to 75\<close>

lemma floor_frac_nat: "\<lfloor>real a * real n / real b\<rfloor> = int (a * n div b)"
  by (metis floor_divide_of_nat_eq of_nat_mult)

lemma pyslice_nat:
  "pyslice (int a) (int b) xs = take (min b (length xs) - min a (length xs)) (drop (min a (length xs)) xs)"
  by (simp add: pyslice_def clip_index_def Let_def)

lemma split_lengths_sum: "int (train_len n) + int (val_len n) + test_len n = int n"
  by (simp add: test_len_def)

lemma subsets_split_shape:
  "subsets indices 0 (split_shape n) =
     [pyslice 0 (int (train_len n)) indices,
      pyslice (int (train_len n)) (int (train_len n) + int (val_len n)) indices,
      pyslice (int (train_len n) + int (val_len n)) (int n) indices]"
  by (simp add: split_shape_def test_len_def)

lemma random_split_shape:
  "random_split t g n (split_shape n) =
     Inr (subsets (fst (randperm t g n)) 0 (split_shape n), snd (randperm t g n))"
proof -
  have "sum_list (split_shape n) = int n" by (simp add: split_shape_def test_len_def)
  then show ?thesis by (simp add: random_split_def split: prod.splits)
qed


lemma partition_eq:
  "partition t g e n =
     Inr ((pyslice 0 (int (train_len n)) (fst (randperm t (manual_seed t 0) n)),
           pyslice (int (train_len n)) (int (train_len n) + int (val_len n))
             (fst (randperm t (manual_seed t 0) n)),
           pyslice (int (train_len n) + int (val_len n)) (int n)
             (fst (randperm t (manual_seed t 0) n))), manual_seed t e)"
  unfolding partition_def Let_def random_split_shape subsets_split_shape by simp

lemma split_exact_lengths:
  assumes le: "a + b \<le> n" and len: "length xs = n"
  shows "length (pyslice 0 (int a) xs) = a"
    and "length (pyslice (int a) (int a + int b) xs) = b"
    and "length (pyslice (int a + int b) (int n) xs) = n - a - b"
proof -
  have "pyslice 0 (int a) xs = pyslice (int 0) (int a) xs" by simp
  then show "length (pyslice 0 (int a) xs) = a"
    using le len unfolding pyslice_nat by simp
  have "pyslice (int a) (int a + int b) xs = pyslice (int a) (int (a + b)) xs" by simp
  then show "length (pyslice (int a) (int a + int b) xs) = b"
    using le len unfolding pyslice_nat by simp
  have "pyslice (int a + int b) (int n) xs = pyslice (int (a + b)) (int n) xs" by simp
  then show "length (pyslice (int a + int b) (int n) xs) = n - a - b"
    using le len unfolding pyslice_nat by simp
qed


lemma floor_08: "\<lfloor>0.8 * real n\<rfloor> = int (4 * n div 5)"
proof -
  have "0.8 * real n = real 4 * real n / real 5" by simp
  then show ?thesis by (simp only: floor_frac_nat)
qed

lemma floor_01: "\<lfloor>0.1 * real n\<rfloor> = int (n div 10)"
proof -
  have "0.1 * real n = real 1 * real n / real 10" by simp
  then have "\<lfloor>0.1 * real n\<rfloor> = int (1 * n div 10)" by (simp only: floor_frac_nat)
  then show ?thesis by simp
qed

lemma train_len_floor: "n < 2 ^ 50 \<Longrightarrow> train_len n = nat \<lfloor>0.8 * real n\<rfloor>"
  by (simp only: train_len_exact floor_08 nat_int)

lemma val_len_floor: "n < 2 ^ 50 \<Longrightarrow> val_len n = nat \<lfloor>0.1 * real n\<rfloor>"
  by (simp only: val_len_exact floor_01 nat_int)

lemma split_lengths_le: "n < 2 ^ 50 \<Longrightarrow> train_len n + val_len n \<le> n"
  by (simp only: train_len_exact val_len_exact)

lemma test_len_nat: "train_len n + val_len n \<le> n \<Longrightarrow> int (n - train_len n - val_len n) = test_len n"
  unfolding test_len_def by linarith

lemma partition_lengths:
  assumes le: "train_len n + val_len n \<le> n"
    and len: "length (fst (randperm t (manual_seed t 0) n)) = n"
  shows "\<exists>train_set val_set test_set.
            partition t g e n = Inr ((train_set, val_set, test_set), manual_seed t e) \<and>
            length train_set = train_len n \<and> length val_set = val_len n \<and>
            int (length test_set) = test_len n \<and>
            length train_set + length val_set + length test_set = n"
proof (intro exI conjI)
  show "partition t g e n = Inr ((pyslice 0 (int (train_len n)) (fst (randperm t (manual_seed t 0) n)),
           pyslice (int (train_len n)) (int (train_len n) + int (val_len n))
             (fst (randperm t (manual_seed t 0) n)),
           pyslice (int (train_len n) + int (val_len n)) (int n)
             (fst (randperm t (manual_seed t 0) n))), manual_seed t e)"
    by (rule partition_eq)
  show "length (pyslice 0 (int (train_len n)) (fst (randperm t (manual_seed t 0) n))) = train_len n"
    using le len by (rule split_exact_lengths)
  show "length (pyslice (int (train_len n)) (int (train_len n) + int (val_len n))
             (fst (randperm t (manual_seed t 0) n))) = val_len n"
    using le len by (rule split_exact_lengths)
  show "int (length (pyslice (int (train_len n) + int (val_len n)) (int n)
             (fst (randperm t (manual_seed t 0) n)))) = test_len n"
    using test_len_nat [OF le] split_exact_lengths(3) [OF le len] by (simp only:)
  show "length (pyslice 0 (int (train_len n)) (fst (randperm t (manual_seed t 0) n))) +
        length (pyslice (int (train_len n)) (int (train_len n) + int (val_len n))
             (fst (randperm t (manual_seed t 0) n))) +
        length (pyslice (int (train_len n) + int (val_len n)) (int n)
             (fst (randperm t (manual_seed t 0) n))) = n"
    using le by (simp only: split_exact_lengths [OF le len])
qed


text \<open>
  Claim C5. A dataset of \<open>n\<close> samples is split into \<open>floor(0.8 n)\<close> training samples,
  \<open>floor(0.1 n)\<close> validation samples and the remainder as test samples, and the three sizes sum
  to \<open>n\<close>: for the lengths that lines 69 to 71 compute, and for the subsets that \<open>random_split\<close>
  cuts from a permutation of the \<open>n\<close> indices. The lengths are products of doubles: the
  statement is for \<open>n < 2 ^ 50\<close>, where the rounding of the product stays below the distance
  of \<open>0.8 n\<close> and \<open>0.1 n\<close> to the next integer.
\<close>

theorem split_sizes:
  assumes "n < 2 ^ 50" and "length (fst (randperm t (manual_seed t 0) n)) = n"
  shows "train_len n = nat \<lfloor>0.8 * real n\<rfloor> \<and> val_len n = nat \<lfloor>0.1 * real n\<rfloor> \<and>
         test_len n = int n - int (train_len n) - int (val_len n) \<and>
         int (train_len n) + int (val_len n) + test_len n = int n \<and>
         (\<exists>train_set val_set test_set.
            partition t g e n = Inr ((train_set, val_set, test_set), manual_seed t e) \<and>
            length train_set = train_len n \<and> length val_set = val_len n \<and>
            int (length test_set) = test_len n \<and>
            length train_set + length val_set + length test_set = n)"
proof (intro conjI)
  show "train_len n = nat \<lfloor>0.8 * real n\<rfloor>" using assms(1) by (rule train_len_floor)
  show "val_len n = nat \<lfloor>0.1 * real n\<rfloor>" using assms(1) by (rule val_len_floor)
  show "test_len n = int n - int (train_len n) - int (val_len n)" by (rule test_len_def)
  show "int (train_len n) + int (val_len n) + test_len n = int n" by (rule split_lengths_sum)
  show "\<exists>train_set val_set test_set.
            partition t g e n = Inr ((train_set, val_set, test_set), manual_seed t e) \<and>
            length train_set = train_len n \<and> length val_set = val_len n \<and>
            int (length test_set) = test_len n \<and>
            length train_set + length val_set + length test_set = n"
    using split_lengths_le [OF assms(1)] assms(2) by (rule partition_lengths)
qed

theorem split_sizes_witness:
  "train_len 37 = 29 \<and> val_len 37 = 3 \<and> test_len 37 = 5 \<and>
   (\<exists>train_set val_set test_set.
      partition toy_torch 7 9 37 = Inr ((train_set, val_set, test_set), 9) \<and>
      length train_set = 29 \<and> length val_set = 3 \<and> length test_set = 5)"
proof -
  have small: "(37::nat) < 2 ^ 50" by simp
  have len: "length (fst (randperm toy_torch (manual_seed toy_torch 0) 37)) = 37"
    by (simp add: toy_torch_def)
  have fl: "nat \<lfloor>0.8 * real 37\<rfloor> = 29" "nat \<lfloor>0.1 * real 37\<rfloor> = 3"
    by (simp_all only: floor_08 floor_01 nat_int)
  have seed: "manual_seed toy_torch 9 = 9" by (simp add: toy_torch_def)
  from split_sizes [OF small len, of 7 9] show ?thesis
    unfolding fl seed by auto
qed

text \<open>
  Claim C4. Two runs on a dataset of the same size get the same three index lists, whatever
  state the generator was in when each run reached line 72 and whatever seed \<open>torch.seed()\<close>
  draws at line 75: the lists are cut from the permutation that the state of seed \<open>0\<close> gives.
  After the partition the generator is in the state of the drawn seed, so what is shuffled
  later does not depend on the seed \<open>0\<close>.
\<close>

theorem partition_deterministic:
  "\<exists>sets. partition t g1 e1 n = Inr (sets, manual_seed t e1) \<and>
          partition t g2 e2 n = Inr (sets, manual_seed t e2) \<and>
          sets = (pyslice 0 (int (train_len n)) (fst (randperm t (manual_seed t 0) n)),
                  pyslice (int (train_len n)) (int (train_len n) + int (val_len n))
                    (fst (randperm t (manual_seed t 0) n)),
                  pyslice (int (train_len n) + int (val_len n)) (int n)
                    (fst (randperm t (manual_seed t 0) n)))"
  by (simp only: partition_eq) simp

theorem partition_deterministic_witness:
  "\<exists>sets. partition toy_torch 3 5 10 = Inr (sets, 5) \<and> partition toy_torch 8 6 10 = Inr (sets, 6)"
  using partition_deterministic [of toy_torch 3 5 10 8 6] by (auto simp: toy_torch_def)







section \<open>Resumption\<close>

lemma and_then_None [simp]: "and_then (s, None) f = f s"
  by (simp add: and_then_def)

lemma and_then_Some [simp]: "and_then (s, Some err) f = (s, Some err)"
  by (simp add: and_then_def)

lemma and_then_cases:
  "and_then r f = (s', x) \<Longrightarrow>
     (snd r = None \<and> f (fst r) = (s', x)) \<or> (\<exists>err. r = (s', Some err) \<and> x = Some err)"
  by (cases r) (auto simp: and_then_def split: option.splits)

lemma load_model_cases:
  "load_model t d s = (s', None) \<Longrightarrow>
     \<exists>sd m. getitem d ''model_state_dict'' = Inr (PyModelState sd) \<and>
            load_state_dict t (model s) sd = Returns m \<and> s' = s\<lparr>model := m\<rparr>"
  by (auto simp: load_model_def split: sum.splits pyobj.splits call.splits)

lemma load_optimizer_cases:
  "load_optimizer t d s = (s', None) \<Longrightarrow>
     \<exists>od opt. getitem d ''optimizer_state_dict'' = Inr (PyOptimState od) \<and>
            optim_load_state_dict t (optimizer s) od = Returns opt \<and> s' = s\<lparr>optimizer := opt\<rparr>"
  by (auto simp: load_optimizer_def split: sum.splits pyobj.splits call.splits)

lemma load_position_cases:
  "load_position d fp s = (s', None) \<Longrightarrow>
     \<exists>e l. getitem d ''epoch'' = Inr e \<and> getitem d ''loss'' = Inr (PyTensor l) \<and>
           s' = s\<lparr>continue_epoch := e, logged := logged s @ [LogLoad fp, LogContinue e l]\<rparr>"
  by (auto simp: load_position_def info_def Let_def split: sum.splits pyobj.splits)

lemma load_checkpoint_ok:
  assumes "load_checkpoint t s = (s', None)"
  shows "\<exists>fp d sd m od opt e l.
           checkpoint_fp (files s) = Some fp \<and> torch_load (files s) fp = Inr d \<and>
           getitem d ''model_state_dict'' = Inr (PyModelState sd) \<and>
           load_state_dict t (model s) sd = Returns m \<and>
           getitem d ''optimizer_state_dict'' = Inr (PyOptimState od) \<and>
           optim_load_state_dict t (optimizer s) od = Returns opt \<and>
           getitem d ''epoch'' = Inr e \<and> getitem d ''loss'' = Inr (PyTensor l) \<and>
           s' = s\<lparr>model := m, optimizer := opt, continue_epoch := e,
                   logged := logged s @ [LogLoad fp, LogContinue e l]\<rparr>"
proof -
  from assms obtain fp d where fp: "checkpoint_fp (files s) = Some fp"
    and d: "torch_load (files s) fp = Inr d"
    and run: "and_then (load_model t d s) (\<lambda>s1.
               and_then (load_optimizer t d s1) (\<lambda>s2. load_position d fp s2)) = (s', None)"
    by (auto simp: load_checkpoint_def split: option.splits sum.splits)
  from and_then_cases [OF run] obtain s1 where s1: "load_model t d s = (s1, None)"
    and run1: "and_then (load_optimizer t d s1) (\<lambda>s2. load_position d fp s2) = (s', None)"
    by (cases "load_model t d s") auto
  from and_then_cases [OF run1] obtain s2 where s2: "load_optimizer t d s1 = (s2, None)"
    and run2: "load_position d fp s2 = (s', None)"
    by (cases "load_optimizer t d s1") auto
  from load_model_cases [OF s1] load_optimizer_cases [OF s2] load_position_cases [OF run2]
  show ?thesis using fp d by auto
qed

lemma load_optimizer_keeps:
  "model (fst (load_optimizer t d s)) = model s"
  "continue_epoch (fst (load_optimizer t d s)) = continue_epoch s"
  "logged (fst (load_optimizer t d s)) = logged s"
  by (simp_all add: load_optimizer_def split: sum.splits pyobj.splits call.splits)

lemma resume_ok:
  assumes "continue_training a" and "load_checkpoint t s = (s', None)"
  shows "resume t a s = info (LogContinueFrom (continue_epoch s')) s'"
  using assms by (simp add: resume_def Let_def)

lemma resume_raised:
  assumes "continue_training a" and "load_checkpoint t s = (s', Some err)"
  shows "resume t a s =
    info (LogContinueFrom (continue_epoch s')) (info (LogException err) s')"
  using assms by (simp add: resume_def Let_def info_def)

lemma for_each_first:
  "i \<le> j \<Longrightarrow> for_each body [i..j] s = and_then (body i s) (for_each body [i + 1..j])"
  by (simp add: upto_rec1)

text \<open>
  Claim C1. When resumption is requested and the latest checkpoint, whose field \<open>epoch\<close> is
  \<open>E\<close>, is restored without an exception, \<open>continue_epoch\<close> is \<open>E\<close>: the loop runs over
  \<open>range(E, args.epoch)\<close>, and when \<open>E < args.epoch\<close> its first pass is the body with
  \<open>epoch = E\<close>, the epoch the checkpoint was saved in, not \<open>E + 1\<close>.
\<close>

theorem resume_restarts_checkpoint_epoch:
  assumes "continue_training a" and "load_checkpoint t s = (s', None)"
    and "checkpoint_fp (files s) = Some fp" and "torch_load (files s) fp = Inr d"
    and "getitem d ''epoch'' = Inr (PyInt E)"
  shows "continue_epoch (resume t a s) = PyInt E \<and>
         training t a tr va (resume t a s) =
           and_then (for_each (train_epoch t a tr va) [E..epoch a - 1] (resume t a s))
             (save_checkpoint t) \<and>
         (E < epoch a \<longrightarrow>
            for_each (train_epoch t a tr va) [E..epoch a - 1] (resume t a s) =
              and_then (train_epoch t a tr va E (resume t a s))
                (for_each (train_epoch t a tr va) [E + 1..epoch a - 1]))"
proof -
  from load_checkpoint_ok [OF assms(2)] assms(3-5)
  have "continue_epoch s' = PyInt E" by auto
  then have ce: "continue_epoch (resume t a s) = PyInt E"
    using resume_ok [OF assms(1,2)] by (simp add: info_def)
  then have "training t a tr va (resume t a s) =
           and_then (for_each (train_epoch t a tr va) [E..epoch a - 1] (resume t a s))
             (save_checkpoint t)"
    by (simp add: training_def)
  moreover have "E < epoch a \<longrightarrow>
            for_each (train_epoch t a tr va) [E..epoch a - 1] (resume t a s) =
              and_then (train_epoch t a tr va E (resume t a s))
                (for_each (train_epoch t a tr va) [E + 1..epoch a - 1])"
    by (simp add: for_each_first)
  ultimately show ?thesis using ce by blast
qed

text \<open>
  Claim C10. Restoration is not atomic. When the model state of the checkpoint has loaded
  and the optimizer state then fails to load, or the key \<open>epoch\<close> is missing, the run goes on
  from epoch \<open>0\<close> with the model of the checkpoint: the model it had before line 103 is not
  put back.
\<close>

theorem restore_not_atomic:
  assumes "continue_training a" and "continue_epoch s = PyInt 0"
    and "checkpoint_fp (files s) = Some fp" and "torch_load (files s) fp = Inr d"
    and "getitem d ''model_state_dict'' = Inr (PyModelState sd)"
    and "load_state_dict t (model s) sd = Returns m"
    and "snd (load_optimizer t d (s\<lparr>model := m\<rparr>)) \<noteq> None \<or> (\<exists>err. getitem d ''epoch'' = Inl err)"
  shows "model (resume t a s) = m \<and> continue_epoch (resume t a s) = PyInt 0 \<and>
         (\<exists>err. LogException err \<in> set (logged (resume t a s)))"
proof -
  define s1 where "s1 = s\<lparr>model := m\<rparr>"
  have lm: "load_model t d s = (s1, None)"
    using assms(5,6) by (simp add: load_model_def s1_def)
  obtain s2 r where lo: "load_optimizer t d s1 = (s2, r)" by (cases "load_optimizer t d s1")
  have keep: "model s2 = m" "continue_epoch s2 = PyInt 0"
    using load_optimizer_keeps(1,2) [of t d s1] lo assms(2) by (simp_all add: s1_def)
  have "\<exists>s3 err. load_checkpoint t s = (s3, Some err) \<and> model s3 = m \<and>
      continue_epoch s3 = PyInt 0"
  proof (cases r)
    case (Some err)
    then show ?thesis
      using assms(3,4) lm lo keep by (simp add: load_checkpoint_def)
  next
    case None
    with assms(7) lo obtain err where "getitem d ''epoch'' = Inl err"
      by (auto simp: s1_def)
    then show ?thesis
      using assms(3,4) lm lo keep None by (simp add: load_checkpoint_def load_position_def)
  qed
  then obtain s3 err where "load_checkpoint t s = (s3, Some err)" "model s3 = m"
    "continue_epoch s3 = PyInt 0" by blast
  then show ?thesis
    using resume_raised [OF assms(1), of t s s3 err] by (auto simp: info_def)
qed

lemma toy_fp: "checkpoint_fp (files (toy_state f)) = Some ''model_saved/checkpoint_epoch_1.pt''"
  by (simp add: toy_state_def checkpoint_fp_def glob_def checkpoint_glob_def natsorted_def
      sorted_by_def)

lemma toy_load:
  "torch_load (files (toy_state (Pickled d))) ''model_saved/checkpoint_epoch_1.pt'' = Inr d"
  by (simp add: toy_state_def torch_load_def)

lemma toy_restore:
  "load_checkpoint toy_torch (toy_state (toy_checkpoint 1)) =
     ((toy_state (toy_checkpoint 1))\<lparr>model := 11, optimizer := 12, continue_epoch := PyInt 1,
        logged := [LogArgs, LogLengths 2 1 0, LogModel,
                   LogLoad ''model_saved/checkpoint_epoch_1.pt'',
                   LogContinue (PyInt 1) (FloatTensor 5)]\<rparr>, None)"
  unfolding load_checkpoint_def toy_fp
  by (simp add: toy_checkpoint_def toy_load load_model_def load_optimizer_def load_position_def
      getitem_def toy_torch_def info_def)
     (simp add: toy_state_def)

theorem resume_restarts_checkpoint_epoch_witness:
  "continue_epoch (resume toy_torch toy_args (toy_state (toy_checkpoint 1))) = PyInt 1 \<and>
   for_each (train_epoch toy_torch toy_args [0, 1] [2]) [1..epoch toy_args - 1]
       (resume toy_torch toy_args (toy_state (toy_checkpoint 1))) =
     and_then (train_epoch toy_torch toy_args [0, 1] [2] 1
                 (resume toy_torch toy_args (toy_state (toy_checkpoint 1))))
       (for_each (train_epoch toy_torch toy_args [0, 1] [2]) [1 + 1..epoch toy_args - 1])"
proof -
  have a: "continue_training toy_args" by (simp add: toy_args_def)
  have d: "torch_load (files (toy_state (toy_checkpoint 1))) ''model_saved/checkpoint_epoch_1.pt'' =
      Inr [(''epoch'', PyInt 1), (''loss'', PyTensor (FloatTensor 5)),
           (''model_state_dict'', PyModelState 11), (''optimizer_state_dict'', PyOptimState 12)]"
    by (simp add: toy_checkpoint_def toy_load)
  have e: "getitem [(''epoch'', PyInt 1), (''loss'', PyTensor (FloatTensor 5)),
           (''model_state_dict'', PyModelState 11), (''optimizer_state_dict'', PyOptimState (12::nat))]
           ''epoch'' = (Inr (PyInt 1) :: pyerr + (nat, nat, nat) pyobj)"
    by (simp add: getitem_def)
  have lt: "1 < epoch toy_args" by (simp add: toy_args_def)
  from resume_restarts_checkpoint_epoch [OF a toy_restore toy_fp d e, of "[0, 1]" "[2]"] lt
  show ?thesis by simp
qed

theorem restore_not_atomic_witness:
  "model (toy_state toy_bad_optimizer) = 0 \<and>
   model (resume toy_torch toy_args (toy_state toy_bad_optimizer)) = 11 \<and>
   continue_epoch (resume toy_torch toy_args (toy_state toy_bad_optimizer)) = PyInt 0"
proof -
  have a: "continue_training toy_args" by (simp add: toy_args_def)
  have b: "continue_epoch (toy_state toy_bad_optimizer) = PyInt 0" by (simp add: toy_state_def)
  have d: "torch_load (files (toy_state toy_bad_optimizer)) ''model_saved/checkpoint_epoch_1.pt'' =
      Inr [(''epoch'', PyInt 1), (''loss'', PyTensor (FloatTensor 5)),
           (''model_state_dict'', PyModelState 11), (''optimizer_state_dict'', PyOptimState 0)]"
    by (simp add: toy_bad_optimizer_def toy_load)
  have m: "getitem [(''epoch'', PyInt 1), (''loss'', PyTensor (FloatTensor 5)),
           (''model_state_dict'', PyModelState 11), (''optimizer_state_dict'', PyOptimState (0::nat))]
           ''model_state_dict'' = (Inr (PyModelState 11) :: pyerr + (nat, nat, nat) pyobj)"
    by (simp add: getitem_def)
  have l: "load_state_dict toy_torch (model (toy_state toy_bad_optimizer)) 11 = Returns 11"
    by (simp add: toy_torch_def)
  have o: "snd (load_optimizer toy_torch
             [(''epoch'', PyInt 1), (''loss'', PyTensor (FloatTensor 5)),
              (''model_state_dict'', PyModelState 11), (''optimizer_state_dict'', PyOptimState 0)]
             ((toy_state toy_bad_optimizer)\<lparr>model := 11\<rparr>)) \<noteq> None \<or>
           (\<exists>err. getitem [(''epoch'', PyInt 1), (''loss'', PyTensor (FloatTensor (5::nat))),
              (''model_state_dict'', PyModelState (11::nat)),
              (''optimizer_state_dict'', PyOptimState (0::nat))] ''epoch'' = Inl err)"
    by (simp add: load_optimizer_def getitem_def toy_torch_def)
  from restore_not_atomic [OF a b toy_fp d m l o]
  show ?thesis by (simp add: toy_state_def)
qed

text \<open>
  Claim C2, at a checkpoint that has no key \<open>loss\<close> and the epoch \<open>1\<close>: line 105 has set
  \<open>continue_epoch\<close> when line 106 raises, the \<open>except\<close> logs the exception, and the run goes on
  from epoch \<open>1\<close> with the model and the optimizer of the checkpoint, not from epoch \<open>0\<close>.
\<close>

theorem late_failure_keeps_checkpoint_epoch:
  "resume toy_torch toy_args (toy_state toy_no_loss) =
     (toy_state toy_no_loss)\<lparr>model := 11, optimizer := 12, continue_epoch := PyInt 1,
        logged := [LogArgs, LogLengths 2 1 0, LogModel, LogException (KeyError ''loss''),
                   LogContinueFrom (PyInt 1)]\<rparr>"
proof -
  have "load_checkpoint toy_torch (toy_state toy_no_loss) =
     ((toy_state toy_no_loss)\<lparr>model := 11, optimizer := 12, continue_epoch := PyInt 1\<rparr>,
      Some (KeyError ''loss''))"
    unfolding load_checkpoint_def toy_fp
    by (simp add: toy_no_loss_def toy_load load_model_def load_optimizer_def load_position_def
      getitem_def toy_torch_def info_def)
  then show ?thesis
    by (simp add: resume_def toy_args_def info_def Let_def) (simp add: toy_state_def)
qed

section \<open>The loop and the final save\<close>

lemma and_then_fst_None:
  "and_then r f = (s', None) \<Longrightarrow> \<exists>s1. r = (s1, None) \<and> f s1 = (s', None)"
  by (cases r) (auto simp: and_then_def split: option.splits)

lemma for_each_append:
  "for_each body (xs @ ys) s = and_then (for_each body xs s) (for_each body ys)"
proof (induction xs arbitrary: s)
  case Nil
  show ?case by simp
next
  case (Cons x xs)
  show ?case
  proof (cases "body x s")
    case (Pair s1 r)
    then show ?thesis using Cons by (cases r) simp_all
  qed
qed

lemma for_each_last:
  "i \<le> j \<Longrightarrow> for_each body [i..j] s = and_then (for_each body [i..j - 1] s) (body j)"
proof -
  assume "i \<le> j"
  then have "[i..j] = [i..j - 1] @ [j]" by (rule upto_rec2)
  then have "for_each body [i..j] s = and_then (for_each body [i..j - 1] s) (for_each body [j])"
    by (simp only: for_each_append)
  moreover have "for_each body [j] = body j"
  proof
    fix x show "for_each body [j] x = body j x"
      by (cases "body j x") (simp add: and_then_def split: option.splits)
  qed
  ultimately show ?thesis by simp
qed

lemma train_batches_keeps:
  "var_epoch (fst (train_batches t i bs s)) = var_epoch s"
  "logged (fst (train_batches t i bs s)) = logged s"
  "saved (fst (train_batches t i bs s)) = saved s"
  "files (fst (train_batches t i bs s)) = files s"
  "var_val_loss (fst (train_batches t i bs s)) = var_val_loss s"
  by (induction bs arbitrary: i s; simp split: sum.splits prod.splits)+

lemma train_batches_loss:
  "train_batches t i bs s = (s', None) \<Longrightarrow> bs \<noteq> [] \<or> var_loss s \<noteq> None \<Longrightarrow>
     var_loss s' \<noteq> None"
proof (induction bs arbitrary: i s)
  case Nil
  then show ?case by simp
next
  case (Cons b bs)
  then show ?case by (auto split: sum.splits prod.splits)
qed

lemma val_batches_keeps:
  "var_epoch (fst (val_batches t bs s)) = var_epoch s"
  "var_loss (fst (val_batches t bs s)) = var_loss s"
  "logged (fst (val_batches t bs s)) = logged s"
  "saved (fst (val_batches t bs s)) = saved s"
  "files (fst (val_batches t bs s)) = files s"
  "model (fst (val_batches t bs s)) = model s"
  "optimizer (fst (val_batches t bs s)) = optimizer s"
  by (induction bs arbitrary: s; simp split: sum.splits)+

lemma validate_keeps:
  "var_epoch (fst (validate t a va s)) = var_epoch s"
  "var_loss (fst (validate t a va s)) = var_loss s"
  "logged (fst (validate t a va s)) = logged s"
  "saved (fst (validate t a va s)) = saved s"
  "files (fst (validate t a va s)) = files s"
  "model (fst (validate t a va s)) = model s"
  "optimizer (fst (validate t a va s)) = optimizer s"
  by (simp_all add: validate_def val_batches_keeps)

lemma log_epoch_keeps:
  "var_epoch (fst (log_epoch a tr e s)) = var_epoch s"
  "var_loss (fst (log_epoch a tr e s)) = var_loss s"
  "saved (fst (log_epoch a tr e s)) = saved s"
  "files (fst (log_epoch a tr e s)) = files s"
  "model (fst (log_epoch a tr e s)) = model s"
  "optimizer (fst (log_epoch a tr e s)) = optimizer s"
  by (simp_all add: log_epoch_def info_def split: option.splits)

lemma save_checkpoint_keeps:
  "var_epoch (fst (save_checkpoint t s)) = var_epoch s"
  "var_loss (fst (save_checkpoint t s)) = var_loss s"
  "logged (fst (save_checkpoint t s)) = logged s"
  "model (fst (save_checkpoint t s)) = model s"
  "optimizer (fst (save_checkpoint t s)) = optimizer s"
  by (simp_all add: save_checkpoint_def Let_def split: option.splits)

lemma save_checkpoint_ok:
  "var_epoch s = Some e \<Longrightarrow> var_loss s = Some l \<Longrightarrow>
   save_checkpoint t s =
     (s\<lparr>files := write_file (checkpoint_path e) (Pickled (checkpoint_items t e l s)) (files s),
        saved := saved s @ [(checkpoint_path e, checkpoint_items t e l s)]\<rparr>, None)"
  by (simp add: save_checkpoint_def Let_def)

lemma checkpoint_items_cong:
  "model s' = model s \<Longrightarrow> optimizer s' = optimizer s \<Longrightarrow>
   checkpoint_items t e l s' = checkpoint_items t e l s"
  by (simp add: checkpoint_items_def)

lemma and_then_proj:
  "(\<And>x. p (fst (f x)) = p x) \<Longrightarrow> p (fst (and_then r f)) = p (fst r)"
  by (cases r) (simp add: and_then_def split: option.splits)

lemma log_block_keeps:
  "var_epoch (fst (log_block t a tr va e s)) = var_epoch s"
  "var_loss (fst (log_block t a tr va e s)) = var_loss s"
  "saved (fst (log_block t a tr va e s)) = saved s"
  "files (fst (log_block t a tr va e s)) = files s"
  "model (fst (log_block t a tr va e s)) = model s"
  "optimizer (fst (log_block t a tr va e s)) = optimizer s"
  by (simp_all add: log_block_def and_then_proj log_epoch_keeps validate_keeps)

lemma train_epoch_normal:
  assumes run: "train_epoch t a tr va e s = (s', None)"
    and bs: "fst (loader_iter t (rng s) tr (nat (batch_size a))) \<noteq> []"
  shows "var_epoch s' = Some e \<and>
         (\<exists>l. var_loss s' = Some l \<and>
              (e mod save_interval a = 0 \<longrightarrow>
                 saved s' \<noteq> [] \<and>
                 last (saved s') = (checkpoint_path e, checkpoint_items t e l s')))"
proof -
  define s0 where "s0 = s\<lparr>var_epoch := Some e\<rparr>"
  define it where "it = loader_iter t (rng s0) tr (nat (batch_size a))"
  have run': "and_then (train_batches t 0 (fst it) (s0\<lparr>rng := snd it\<rparr>))
      (\<lambda>s1. and_then (log_block t a tr va e s1) (save_block t a e)) = (s', None)"
    using run by (simp add: train_epoch_def Let_def s0_def it_def)
  from and_then_fst_None [OF run'] obtain s1
    where tb: "train_batches t 0 (fst it) (s0\<lparr>rng := snd it\<rparr>) = (s1, None)"
      and r1: "and_then (log_block t a tr va e s1) (save_block t a e) = (s', None)"
    by blast
  from and_then_fst_None [OF r1] obtain s2
    where lb: "log_block t a tr va e s1 = (s2, None)"
      and sb: "save_block t a e s2 = (s', None)"
    by blast
  have "fst it \<noteq> []" using bs by (simp add: it_def s0_def)
  with train_batches_loss [OF tb] obtain l where l1: "var_loss s1 = Some l" by auto
  have e1: "var_epoch s1 = Some e"
    using train_batches_keeps(1) [of t 0 "fst it" "s0\<lparr>rng := snd it\<rparr>"] tb
    by (simp add: s0_def)
  have e2: "var_epoch s2 = Some e" and l2: "var_loss s2 = Some l"
    using log_block_keeps(1,2) [of t a tr va e s1] lb e1 l1 by simp_all
  have sv: "save_interval a \<noteq> 0" using sb by (auto simp: save_block_def)
  show ?thesis
  proof (cases "e mod save_interval a = 0")
    case False
    with sb sv have "s' = s2" by (simp add: save_block_def)
    with e2 l2 False show ?thesis by simp
  next
    case True
    with sb sv have "save_checkpoint t s2 = (s', None)" by (simp add: save_block_def)
    with save_checkpoint_ok [OF e2 l2, of t]
    have s': "s' = s2\<lparr>files := write_file (checkpoint_path e)
                 (Pickled (checkpoint_items t e l s2)) (files s2),
               saved := saved s2 @ [(checkpoint_path e, checkpoint_items t e l s2)]\<rparr>"
      by simp
    have "checkpoint_items t e l s' = checkpoint_items t e l s2"
      by (rule checkpoint_items_cong) (simp_all add: s')
    then show ?thesis using e2 l2 by (simp add: s')
  qed
qed

text \<open>
  Claim C3. When the loop has run its passes up to the last epoch \<open>args.epoch - 1\<close> without
  an exception, line 155 saves once more: a checkpoint named and tagged by the last epoch, with
  the loss, the model and the optimizer the loop ended with. Nothing of it depends on
  \<open>save_interval\<close>; and when the last epoch is a multiple of \<open>save_interval\<close>, the save of line
  149 in the last pass wrote the same name and the same content just before. The training
  loader is taken to yield at least one batch in a pass, so that \<open>loss\<close> is bound.
\<close>

theorem final_checkpoint_written:
  assumes c: "as_index (continue_epoch s) = Some c" and lt: "c < epoch a"
    and run: "for_each (train_epoch t a tr va) [c..epoch a - 1] s = (s', None)"
    and bs: "\<forall>g. fst (loader_iter t g tr (nat (batch_size a))) \<noteq> []"
  shows "\<exists>l. var_epoch s' = Some (epoch a - 1) \<and> var_loss s' = Some l \<and>
     training t a tr va s =
       (s'\<lparr>files := write_file (checkpoint_path (epoch a - 1))
               (Pickled (checkpoint_items t (epoch a - 1) l s')) (files s'),
           saved := saved s' @
               [(checkpoint_path (epoch a - 1), checkpoint_items t (epoch a - 1) l s')]\<rparr>, None) \<and>
     ((epoch a - 1) mod save_interval a = 0 \<longrightarrow>
        saved s' \<noteq> [] \<and>
        last (saved s') = (checkpoint_path (epoch a - 1), checkpoint_items t (epoch a - 1) l s'))"
proof -
  have le: "c \<le> epoch a - 1" using lt by simp
  from run for_each_last [OF le, of "train_epoch t a tr va" s]
  have "and_then (for_each (train_epoch t a tr va) [c..epoch a - 1 - 1] s)
          (train_epoch t a tr va (epoch a - 1)) = (s', None)" by simp
  from and_then_fst_None [OF this] obtain s1
    where last_pass: "train_epoch t a tr va (epoch a - 1) s1 = (s', None)" by blast
  from train_epoch_normal [OF last_pass] bs obtain l
    where e: "var_epoch s' = Some (epoch a - 1)" and l: "var_loss s' = Some l"
      and dup: "(epoch a - 1) mod save_interval a = 0 \<longrightarrow>
        saved s' \<noteq> [] \<and>
        last (saved s') = (checkpoint_path (epoch a - 1), checkpoint_items t (epoch a - 1) l s')"
    by blast
  have "training t a tr va s = save_checkpoint t s'"
    using c run by (simp add: training_def)
  with save_checkpoint_ok [OF e l, of t] e l dup show ?thesis by simp
qed

lemma training_without_epoch:
  assumes "as_index (continue_epoch s) = Some c" and "epoch a \<le> c"
    and "var_epoch s = None"
  shows "[c..epoch a - 1] = [] \<and>
         training t a tr va s = (s, Some (UnboundLocalError ''epoch''))"
  using assms by (simp add: training_def save_checkpoint_def)

lemma and_then_inv:
  "P (fst r) \<Longrightarrow> (\<And>x. P x \<Longrightarrow> P (fst (f x))) \<Longrightarrow> P (fst (and_then r f))"
  by (cases r) (simp add: and_then_def split: option.splits)

lemma for_each_inv:
  "(\<And>e x. P x \<Longrightarrow> P (fst (body e x))) \<Longrightarrow> P s \<Longrightarrow> P (fst (for_each body es s))"
proof (induction es arbitrary: s)
  case Nil
  then show ?case by simp
next
  case (Cons e es)
  show ?case
    unfolding for_each.simps
    by (rule and_then_inv) (simp_all add: Cons)
qed

lemma load_model_keeps:
  "var_epoch (fst (load_model t d s)) = var_epoch s"
  "var_loss (fst (load_model t d s)) = var_loss s"
  "saved (fst (load_model t d s)) = saved s"
  "files (fst (load_model t d s)) = files s"
  "logged (fst (load_model t d s)) = logged s"
  by (simp_all add: load_model_def split: sum.splits pyobj.splits call.splits)

lemma load_optimizer_keeps_vars:
  "var_epoch (fst (load_optimizer t d s)) = var_epoch s"
  "var_loss (fst (load_optimizer t d s)) = var_loss s"
  "saved (fst (load_optimizer t d s)) = saved s"
  "files (fst (load_optimizer t d s)) = files s"
  by (simp_all add: load_optimizer_def split: sum.splits pyobj.splits call.splits)

lemma val_losses_append: "val_losses (xs @ ys) = val_losses xs @ val_losses ys"
  by (induction xs rule: val_losses.induct) simp_all

lemma load_position_keeps:
  "var_epoch (fst (load_position d fp s)) = var_epoch s"
  "var_loss (fst (load_position d fp s)) = var_loss s"
  "saved (fst (load_position d fp s)) = saved s"
  "files (fst (load_position d fp s)) = files s"
  "val_losses (logged (fst (load_position d fp s))) = val_losses (logged s)"
  by (simp_all add: load_position_def info_def Let_def val_losses_append
      split: sum.splits pyobj.splits)

lemma load_chain_losses:
  "val_losses (logged (fst (and_then (load_model t d s)
      (\<lambda>s1. and_then (load_optimizer t d s1) (load_position d fp))))) = val_losses (logged s)"
proof -
  have inner: "\<And>x. val_losses (logged (fst (and_then (load_optimizer t d x) (load_position d fp)))) =
      val_losses (logged x)"
  proof -
    fix x
    have "val_losses (logged (fst (and_then (load_optimizer t d x) (load_position d fp)))) =
        val_losses (logged (fst (load_optimizer t d x)))"
      by (rule and_then_proj [where p = "\<lambda>s. val_losses (logged s)"])
        (rule load_position_keeps)
    then show "val_losses (logged (fst (and_then (load_optimizer t d x) (load_position d fp)))) =
      val_losses (logged x)"
      by (simp add: load_optimizer_keeps)
  qed
  have "val_losses (logged (fst (and_then (load_model t d s)
      (\<lambda>s1. and_then (load_optimizer t d s1) (load_position d fp))))) =
      val_losses (logged (fst (load_model t d s)))"
    by (rule and_then_proj [where p = "\<lambda>s. val_losses (logged s)"]) (rule inner)
  then show ?thesis by (simp add: load_model_keeps)
qed

lemma load_checkpoint_keeps:
  "var_epoch (fst (load_checkpoint t s)) = var_epoch s"
  "var_loss (fst (load_checkpoint t s)) = var_loss s"
  "saved (fst (load_checkpoint t s)) = saved s"
  "files (fst (load_checkpoint t s)) = files s"
  "val_losses (logged (fst (load_checkpoint t s))) = val_losses (logged s)"
  by (simp_all add: load_checkpoint_def and_then_proj load_model_keeps load_optimizer_keeps
      load_optimizer_keeps_vars load_position_keeps load_chain_losses
      split: option.splits sum.splits)

lemma resume_keeps:
  "var_epoch (resume t a s) = var_epoch s"
  "var_loss (resume t a s) = var_loss s"
  "saved (resume t a s) = saved s"
  "files (resume t a s) = files s"
  "val_losses (logged (resume t a s)) = val_losses (logged s)"
  by (simp_all add: resume_def Let_def info_def load_checkpoint_keeps val_losses_append
      split: option.splits)

lemma log_epoch_sentinel:
  assumes "var_val_loss s = Some v" and "set (val_losses (logged s)) \<subseteq> {v}"
  shows "set (val_losses (logged (fst (log_epoch a tr e s)))) \<subseteq> {v}"
  using assms by (simp add: log_epoch_def info_def val_losses_append split: option.splits)

lemma log_block_sentinel:
  assumes "\<not> eval_val a" and "set (val_losses (logged s)) \<subseteq> {LongTensor (- 1)}"
  shows "set (val_losses (logged (fst (log_block t a tr va e s)))) \<subseteq> {LongTensor (- 1)}"
proof -
  have "set (val_losses (logged (fst (log_epoch a tr e
          (s\<lparr>var_val_loss := Some (LongTensor (- 1))\<rparr>))))) \<subseteq> {LongTensor (- 1)}"
    by (rule log_epoch_sentinel) (simp_all add: assms(2))
  then show ?thesis using assms by (simp add: log_block_def validate_def)
qed

lemma save_block_logged: "logged (fst (save_block t a e s)) = logged s"
  by (simp add: save_block_def save_checkpoint_keeps)

lemma train_epoch_sentinel:
  fixes t :: "('m, 'o, 'sd, 'od, 'f, 'g) torch"
  assumes "\<not> eval_val a" and "set (val_losses (logged s)) \<subseteq> {LongTensor (- 1)}"
  shows "set (val_losses (logged (fst (train_epoch t a tr va e s)))) \<subseteq> {LongTensor (- 1)}"
  unfolding train_epoch_def Let_def
proof (rule and_then_inv [where P = "\<lambda>s. set (val_losses (logged s)) \<subseteq> {LongTensor (- 1)}"])
  show "set (val_losses (logged (fst (train_batches t 0
          (fst (loader_iter t (rng (s\<lparr>var_epoch := Some e\<rparr>)) tr (nat (batch_size a))))
          (s\<lparr>var_epoch := Some e,
             rng := snd (loader_iter t (rng (s\<lparr>var_epoch := Some e\<rparr>)) tr
                      (nat (batch_size a)))\<rparr>))))) \<subseteq> {LongTensor (- 1)}"
    using assms(2) by (simp add: train_batches_keeps)
next
  fix x :: "('m, 'o, 'sd, 'od, 'f, 'g) state"
  assume x: "set (val_losses (logged x)) \<subseteq> {LongTensor (- 1)}"
  show "set (val_losses (logged (fst (and_then (log_block t a tr va e x) (save_block t a e)))))
      \<subseteq> {LongTensor (- 1)}"
  proof (rule and_then_inv [where P = "\<lambda>s. set (val_losses (logged s)) \<subseteq> {LongTensor (- 1)}"])
    show "set (val_losses (logged (fst (log_block t a tr va e x)))) \<subseteq> {LongTensor (- 1)}"
      using assms(1) x by (rule log_block_sentinel)
  next
    fix y :: "('m, 'o, 'sd, 'od, 'f, 'g) state"
    assume "set (val_losses (logged y)) \<subseteq> {LongTensor (- 1)}"
    then show "set (val_losses (logged (fst (save_block t a e y)))) \<subseteq> {LongTensor (- 1)}"
      by (simp add: save_block_logged)
  qed
qed

lemma training_sentinel:
  fixes t :: "('m, 'o, 'sd, 'od, 'f, 'g) torch"
  assumes "\<not> eval_val a" and "set (val_losses (logged s)) \<subseteq> {LongTensor (- 1)}"
  shows "set (val_losses (logged (fst (training t a tr va s)))) \<subseteq> {LongTensor (- 1)}"
proof (cases "as_index (continue_epoch s)")
  case None
  then show ?thesis using assms(2) by (simp add: training_def)
next
  case (Some c)
  have "set (val_losses (logged (fst (and_then
          (for_each (train_epoch t a tr va) [c..epoch a - 1] s) (save_checkpoint t)))))
        \<subseteq> {LongTensor (- 1)}"
  proof (rule and_then_inv [where P = "\<lambda>s. set (val_losses (logged s)) \<subseteq> {LongTensor (- 1)}"])
    show "set (val_losses (logged (fst (for_each (train_epoch t a tr va) [c..epoch a - 1] s))))
        \<subseteq> {LongTensor (- 1)}"
      by (rule for_each_inv [where P = "\<lambda>s. set (val_losses (logged s)) \<subseteq> {LongTensor (- 1)}"])
        (simp_all add: train_epoch_sentinel assms)
  next
    fix x :: "('m, 'o, 'sd, 'od, 'f, 'g) state"
    assume "set (val_losses (logged x)) \<subseteq> {LongTensor (- 1)}"
    then show "set (val_losses (logged (fst (save_checkpoint t x)))) \<subseteq> {LongTensor (- 1)}"
      by (simp add: save_checkpoint_keeps)
  qed
  then show ?thesis using Some by (simp add: training_def)
qed

text \<open>
  Claim C8. With \<open>eval_val\<close> false, every epoch record that a run logs, whether the run ends
  or raises, has the validation loss \<open>torch.tensor(-1)\<close>, the value of line 130: never a loss
  that \<open>loss_func\<close> computed.
\<close>

theorem validation_disabled_sentinel:
  assumes "\<not> eval_val a"
  shows "set (val_losses (logged (fst (main t a w)))) \<subseteq> {LongTensor (- 1)} \<and>
         (\<forall>x. FloatTensor x \<notin> set (val_losses (logged (fst (main t a w)))))"
proof -
  have "set (val_losses (logged (fst (main t a w)))) \<subseteq> {LongTensor (- 1)}"
  proof (cases "np_load w")
    case (Inl err)
    then show ?thesis by (simp add: main_def init_def)
  next
    case (Inr n)
    obtain tr va te g where p: "partition t (rng0 w) (entropy w) n = Inr ((tr, va, te), g)"
      using partition_eq [of t "rng0 w" "entropy w" n] by blast
    show ?thesis
    proof (cases "loaders_ok a va")
      case False
      then show ?thesis using Inr p by (simp add: main_def init_def)
    next
      case True
      have "set (val_losses (logged (fst (training t a tr va
              (resume t a (info LogModel (info (LogLengths (length tr) (length va) (length te))
                 ((init w)\<lparr>rng := g\<rparr>)))))))) \<subseteq> {LongTensor (- 1)}"
        using assms by (rule training_sentinel) (simp add: resume_keeps info_def init_def)
      then show ?thesis using Inr p True by (simp add: main_def init_def)
    qed
  qed
  then show ?thesis by auto
qed

lemma main_reaches_training:
  assumes "np_load w = Inr n"
    and "partition t (rng0 w) (entropy w) n = Inr ((tr, va, te), g)"
    and "loaders_ok a va"
  shows "main t a w = training t a tr va
           (resume t a (info LogModel (info (LogLengths (length tr) (length va) (length te))
              ((init w)\<lparr>rng := g\<rparr>))))"
  using assms by (simp add: main_def init_def)

text \<open>
  Claim C9. When the epoch the loop would start from is not below \<open>args.epoch\<close> (a restored
  epoch at or above the epoch count, or an epoch count of zero with the start \<open>0\<close> of a run that
  restored nothing), the range is empty, \<open>epoch\<close> and \<open>loss\<close> stay unbound, and line 155 raises
  on \<open>epoch\<close>: \<open>main\<close> ends with that exception, nothing saved and the directory as it was.
\<close>

theorem final_save_needs_an_epoch:
  assumes "np_load w = Inr n"
    and "partition t (rng0 w) (entropy w) n = Inr ((tr, va, te), g)"
    and "loaders_ok a va"
    and "s = resume t a (info LogModel (info (LogLengths (length tr) (length va) (length te))
              ((init w)\<lparr>rng := g\<rparr>)))"
    and "as_index (continue_epoch s) = Some c" and "epoch a \<le> c"
  shows "[c..epoch a - 1] = [] \<and> main t a w = (s, Some (UnboundLocalError ''epoch'')) \<and>
         var_epoch s = None \<and> var_loss s = None \<and> saved s = [] \<and> files s = files0 w"
proof -
  have v: "var_epoch s = None" "var_loss s = None" "saved s = []" "files s = files0 w"
    unfolding assms(4) by (simp_all add: resume_keeps info_def init_def)
  from training_without_epoch [OF assms(5,6) v(1)] main_reaches_training [OF assms(1-3)]
  show ?thesis using v assms(4) by simp
qed

lemma digit_chars:
  "char_of (48::nat) = CHR ''0''" "char_of (49::nat) = CHR ''1''" "char_of (50::nat) = CHR ''2''"
  "char_of (51::nat) = CHR ''3''" "char_of (52::nat) = CHR ''4''" "char_of (53::nat) = CHR ''5''"
  "char_of (54::nat) = CHR ''6''" "char_of (55::nat) = CHR ''7''" "char_of (56::nat) = CHR ''8''"
  "char_of (57::nat) = CHR ''9''"
  by (simp_all add: char_of_def bit_numeral_simps bit_Suc_0_iff)

lemma path2: "checkpoint_path 2 = ''model_saved/checkpoint_epoch_2.pt''"
  by (simp add: checkpoint_path_def str_int_def str_nat.simps digit_chars)

lemma path100: "checkpoint_path 100 = ''model_saved/checkpoint_epoch_100.pt''"
  by (simp add: checkpoint_path_def str_int_def str_nat.simps digit_chars)

lemma toy_resumed:
  "resume toy_torch toy_args (toy_state (toy_checkpoint 1)) =
     \<lparr>model = 11, optimizer = 12, rng = 0,
      files = [(''model_saved/checkpoint_epoch_1.pt'', toy_checkpoint 1)],
      logged = [LogArgs, LogLengths 2 1 0, LogModel,
                LogLoad ''model_saved/checkpoint_epoch_1.pt'',
                LogContinue (PyInt 1) (FloatTensor 5), LogContinueFrom (PyInt 1)],
      continue_epoch = PyInt 1, var_epoch = None, var_step = None, var_loss = None,
      var_val_loss = None, saved = []\<rparr>"
proof -
  have a: "continue_training toy_args" by (simp add: toy_args_def)
  show ?thesis
    unfolding resume_ok [OF a toy_restore] by (simp add: info_def toy_state_def)
qed


lemma upto_1_2: "[1..2] = [1, 2::int]"
  by (simp add: upto_rec1)

lemma toy_loop:
  "for_each (train_epoch toy_torch toy_args [0, 1] [2]) [1..epoch toy_args - 1]
     (resume toy_torch toy_args (toy_state (toy_checkpoint 1))) = (toy_end, None)"
proof -
  have e: "epoch toy_args - 1 = 2" by (simp add: toy_args_def)
  show ?thesis
    unfolding toy_resumed e upto_1_2
    by (simp add: train_epoch_def log_block_def save_block_def validate_def log_epoch_def
        save_checkpoint_def checkpoint_items_def toy_torch_def toy_args_def loader_len_def
        info_def path2 toy_end_def toy_items_def Let_def)
qed

lemma len10: "train_len 10 = 8" "val_len 10 = 1"
  using train_len_exact [of 10] val_len_exact [of 10] by simp_all

lemma toy_partition:
  "partition toy_torch g e 10 = Inr (([9, 8, 7, 6, 5, 4, 3, 2], [1], [0]), nat \<bar>e\<bar>)"
  by (simp add: partition_eq len10 toy_torch_def pyslice_def clip_index_def upt_rec)

lemma toy_loaders: "loaders_ok toy_args [1]"
  by (simp add: loaders_ok_def toy_args_def)

lemma toy_before_eq:
  "info LogModel (info (LogLengths (length [9, 8, 7, 6, 5, 4, 3, 2::nat]) (length [1::nat])
      (length [0::nat])) ((init (toy_world (Inr 10) fs))\<lparr>rng := 9\<rparr>)) = toy_before fs"
  by (simp add: info_def init_def toy_world_def toy_before_def)

lemma toy_world_sel:
  "np_load (toy_world r fs) = r" "rng0 (toy_world r fs) = 7" "entropy (toy_world r fs) = 9"
  "files0 (toy_world r fs) = fs"
  by (simp_all add: toy_world_def)

lemma toy_partition_world:
  "partition toy_torch (rng0 (toy_world (Inr 10) fs)) (entropy (toy_world (Inr 10) fs)) 10 =
     Inr (([9, 8, 7, 6, 5, 4, 3, 2], [1], [0]), 9)"
  by (simp add: toy_partition toy_world_sel)

lemma toy_main:
  "main toy_torch toy_args (toy_world (Inr 10) fs) =
     training toy_torch toy_args [9, 8, 7, 6, 5, 4, 3, 2] [1]
       (resume toy_torch toy_args (toy_before fs))"
  using main_reaches_training [OF toy_world_sel(1) toy_partition_world toy_loaders, of fs]
  by (simp only: toy_before_eq)

lemma upto_0_2: "[0..2] = [0, 1, 2::int]"
  by (simp add: upto_rec1)

lemma toy_fresh_resume:
  "resume toy_torch toy_args (toy_before []) =
     (toy_before [])\<lparr>logged := [LogArgs, LogLengths 8 1 1, LogModel,
        LogException FileNotFoundError, LogContinueFrom (PyInt 0)]\<rparr>"
  by (simp add: resume_def load_checkpoint_def checkpoint_fp_def glob_def toy_args_def
      toy_before_def info_def Let_def)

lemma toy_fresh_losses:
  "val_losses (logged (fst (main toy_torch toy_args (toy_world (Inr 10) [])))) =
     [LongTensor (- 1), LongTensor (- 1), LongTensor (- 1)]"
proof -
  have e: "epoch toy_args - 1 = 2" by (simp add: toy_args_def)
  show ?thesis
    unfolding toy_main toy_fresh_resume training_def
    by (simp add: toy_before_def e upto_0_2)
      (simp add: train_epoch_def log_block_def save_block_def validate_def log_epoch_def
        save_checkpoint_def checkpoint_items_def toy_torch_def toy_args_def loader_len_def
        info_def Let_def)
qed

theorem validation_disabled_sentinel_witness:
  "set (val_losses (logged (fst (main toy_torch toy_args (toy_world (Inr 10) []))))) \<subseteq>
     {LongTensor (- 1)} \<and>
   length (val_losses (logged (fst (main toy_torch toy_args (toy_world (Inr 10) []))))) = 3"
proof -
  have "\<not> eval_val toy_args" by (simp add: toy_args_def)
  from validation_disabled_sentinel [OF this, of toy_torch "toy_world (Inr 10) []"]
  show ?thesis by (simp add: toy_fresh_losses)
qed

lemma toy_resume5:
  "continue_epoch (resume toy_torch toy_args (toy_before toy_files5)) = PyInt 5"
  by (simp add: resume_def load_checkpoint_def checkpoint_fp_def glob_def checkpoint_glob_def
      natsorted_def sorted_by_def torch_load_def toy_files5_def toy_checkpoint_def
      load_model_def load_optimizer_def load_position_def getitem_def toy_torch_def
      toy_args_def toy_before_def info_def Let_def)

theorem final_save_needs_an_epoch_witness:
  "snd (main toy_torch toy_args (toy_world (Inr 10) toy_files5)) =
     Some (UnboundLocalError ''epoch'') \<and>
   saved (fst (main toy_torch toy_args (toy_world (Inr 10) toy_files5))) = [] \<and>
   files (fst (main toy_torch toy_args (toy_world (Inr 10) toy_files5))) = toy_files5 \<and>
   main toy_torch (toy_args\<lparr>epoch := 0, continue_training := False\<rparr>) (toy_world (Inr 10) []) =
     (toy_before [], Some (UnboundLocalError ''epoch''))"
proof -
  have l0: "loaders_ok (toy_args\<lparr>epoch := 0, continue_training := False\<rparr>) [1]"
    by (simp add: loaders_ok_def toy_args_def)
  have s5: "resume toy_torch toy_args (toy_before toy_files5) =
      resume toy_torch toy_args
        (info LogModel (info (LogLengths (length [9, 8, 7, 6, 5, 4, 3, 2::nat]) (length [1::nat])
           (length [0::nat])) ((init (toy_world (Inr 10) toy_files5))\<lparr>rng := 9\<rparr>)))"
    by (simp only: toy_before_eq)
  have s0: "toy_before [] =
      resume toy_torch (toy_args\<lparr>epoch := 0, continue_training := False\<rparr>)
        (info LogModel (info (LogLengths (length [9, 8, 7, 6, 5, 4, 3, 2::nat]) (length [1::nat])
           (length [0::nat])) ((init (toy_world (Inr 10) []))\<lparr>rng := 9\<rparr>)))"
    unfolding toy_before_eq by (simp add: resume_def)
  have c5: "as_index (continue_epoch (resume toy_torch toy_args (toy_before toy_files5))) = Some 5"
    by (simp add: toy_resume5)
  have c0: "as_index (continue_epoch (toy_before [])) = Some 0"
    by (simp add: toy_before_def)
  have e5: "epoch toy_args \<le> 5" by (simp add: toy_args_def)
  have e0: "epoch (toy_args\<lparr>epoch := 0, continue_training := False\<rparr>) \<le> 0" by simp
  from final_save_needs_an_epoch
      [OF toy_world_sel(1) toy_partition_world toy_loaders s5 c5 e5]
    final_save_needs_an_epoch [OF toy_world_sel(1) toy_partition_world l0 s0 c0 e0]
  show ?thesis by (simp add: toy_world_sel)
qed

lemma toy_loop_bs:
  "\<forall>g. fst (loader_iter toy_torch g [0, 1] (nat (batch_size a))) \<noteq> []"
  by (simp add: toy_torch_def)

lemma toy_loop_unsaved:
  "for_each (train_epoch toy_torch (toy_args\<lparr>save_interval := 5\<rparr>) [0, 1] [2])
     [1..epoch (toy_args\<lparr>save_interval := 5\<rparr>) - 1]
     (resume toy_torch toy_args (toy_state (toy_checkpoint 1))) = (toy_end_unsaved, None)"
proof -
  have e: "epoch (toy_args\<lparr>save_interval := 5\<rparr>) - 1 = 2" by (simp add: toy_args_def)
  show ?thesis
    unfolding toy_resumed e upto_1_2
    by (simp add: train_epoch_def log_block_def save_block_def validate_def log_epoch_def
        save_checkpoint_def checkpoint_items_def toy_torch_def toy_args_def loader_len_def
        info_def path2 toy_end_def toy_end_unsaved_def toy_items_def Let_def)
qed

theorem final_checkpoint_written_witness:
  "training toy_torch toy_args [0, 1] [2]
      (resume toy_torch toy_args (toy_state (toy_checkpoint 1))) =
     (toy_end\<lparr>saved := [(''model_saved/checkpoint_epoch_2.pt'', toy_items),
                        (''model_saved/checkpoint_epoch_2.pt'', toy_items)]\<rparr>, None) \<and>
   2 mod save_interval toy_args = 0 \<and>
   training toy_torch (toy_args\<lparr>save_interval := 5\<rparr>) [0, 1] [2]
      (resume toy_torch toy_args (toy_state (toy_checkpoint 1))) =
     (toy_end\<lparr>saved := [(''model_saved/checkpoint_epoch_2.pt'', toy_items)]\<rparr>, None) \<and>
   2 mod save_interval (toy_args\<lparr>save_interval := 5\<rparr>) \<noteq> 0"
proof -
  have c: "as_index (continue_epoch (resume toy_torch toy_args (toy_state (toy_checkpoint 1)))) =
      Some 1" by (simp add: toy_resumed)
  have lt: "1 < epoch toy_args" "1 < epoch (toy_args\<lparr>save_interval := 5\<rparr>)"
    by (simp_all add: toy_args_def)
  have e: "epoch toy_args - 1 = 2" "epoch (toy_args\<lparr>save_interval := 5\<rparr>) - 1 = 2"
    by (simp_all add: toy_args_def)
  have it: "checkpoint_items toy_torch 2 12 toy_end = toy_items"
    "checkpoint_items toy_torch 2 12 toy_end_unsaved = toy_items"
    by (simp_all add: checkpoint_items_def toy_end_def toy_end_unsaved_def toy_items_def
        toy_torch_def)
  have vl: "var_loss toy_end = Some 12" "var_loss toy_end_unsaved = Some 12"
    by (simp_all add: toy_end_def toy_end_unsaved_def)
  from final_checkpoint_written [OF c lt(1) toy_loop toy_loop_bs] obtain l
    where "var_loss toy_end = Some l"
      and "training toy_torch toy_args [0, 1] [2]
          (resume toy_torch toy_args (toy_state (toy_checkpoint 1))) =
        (toy_end\<lparr>files := write_file (checkpoint_path (epoch toy_args - 1))
               (Pickled (checkpoint_items toy_torch (epoch toy_args - 1) l toy_end))
               (files toy_end),
           saved := saved toy_end @
               [(checkpoint_path (epoch toy_args - 1),
                 checkpoint_items toy_torch (epoch toy_args - 1) l toy_end)]\<rparr>, None)"
    by blast
  then have t1: "training toy_torch toy_args [0, 1] [2]
          (resume toy_torch toy_args (toy_state (toy_checkpoint 1))) =
        (toy_end\<lparr>files := write_file ''model_saved/checkpoint_epoch_2.pt''
               (Pickled toy_items) (files toy_end),
           saved := saved toy_end @ [(''model_saved/checkpoint_epoch_2.pt'', toy_items)]\<rparr>, None)"
    using vl(1) by (simp add: e path2 it)
  from final_checkpoint_written [OF c lt(2) toy_loop_unsaved toy_loop_bs] obtain l
    where "var_loss toy_end_unsaved = Some l"
      and "training toy_torch (toy_args\<lparr>save_interval := 5\<rparr>) [0, 1] [2]
          (resume toy_torch toy_args (toy_state (toy_checkpoint 1))) =
        (toy_end_unsaved\<lparr>files := write_file
               (checkpoint_path (epoch (toy_args\<lparr>save_interval := 5\<rparr>) - 1))
               (Pickled (checkpoint_items toy_torch
                  (epoch (toy_args\<lparr>save_interval := 5\<rparr>) - 1) l toy_end_unsaved))
               (files toy_end_unsaved),
           saved := saved toy_end_unsaved @
               [(checkpoint_path (epoch (toy_args\<lparr>save_interval := 5\<rparr>) - 1),
                 checkpoint_items toy_torch (epoch (toy_args\<lparr>save_interval := 5\<rparr>) - 1) l
                   toy_end_unsaved)]\<rparr>, None)"
    by blast
  then have t2: "training toy_torch (toy_args\<lparr>save_interval := 5\<rparr>) [0, 1] [2]
          (resume toy_torch toy_args (toy_state (toy_checkpoint 1))) =
        (toy_end_unsaved\<lparr>files := write_file ''model_saved/checkpoint_epoch_2.pt''
               (Pickled toy_items) (files toy_end_unsaved),
           saved := saved toy_end_unsaved @
               [(''model_saved/checkpoint_epoch_2.pt'', toy_items)]\<rparr>, None)"
    using vl(2) by (simp add: e path2 it)
  have m: "2 mod save_interval toy_args = 0"
    "2 mod save_interval (toy_args\<lparr>save_interval := 5\<rparr>) \<noteq> 0"
    by (simp_all add: toy_args_def)
  show ?thesis
    unfolding t1 t2 using m by (simp add: toy_end_def toy_end_unsaved_def)
qed

end
